theory Spec2Isabelle
  imports Complex_Main
begin

section \<open>Python values used by the batch script\<close>

text \<open>
  A Python \<open>str\<close> is a sequence of Unicode code points, and the script cuts strings by code
  point (\<open>s[:-1]\<close> removes the one character U+8DEF), so a string is modelled as the list
  of its code points. ASCII literals are written through \<open>str_of\<close>.
\<close>

type_synonym ustr = "nat list"

definition str_of :: "string \<Rightarrow> ustr" where
  "str_of s = map of_char s"

text \<open>
  Exceptions are values. \<open>NetworkError\<close> stands for whatever \<open>urllib\<close> raises,
  \<open>ValueError\<close> also for \<open>json.JSONDecodeError\<close>, \<open>OSError\<close> for a failed file
  operation.
\<close>

datatype error =
    AttributeError | TypeError | ValueError | KeyError | IndexError
  | ZeroDivisionError | NetworkError | OSError

text \<open>
  The objects \<open>json.loads\<close> returns. Numbers are idealised as reals (no rounding, no NaN,
  no infinities); an object is the association list of its \<open>dict\<close>, read with \<open>map_of\<close>.
\<close>

datatype json =
    JNull | JBool bool | JNum real | JStr ustr
  | JArr "json list" | JObj "(ustr \<times> json) list"

fun truthy :: "json \<Rightarrow> bool" where
  "truthy JNull = False"
| "truthy (JBool b) = b"
| "truthy (JNum r) = (r \<noteq> 0)"
| "truthy (JStr s) = (s \<noteq> [])"
| "truthy (JArr xs) = (xs \<noteq> [])"
| "truthy (JObj kvs) = (kvs \<noteq> [])"

text \<open>\<open>d.get(k, dflt)\<close>: only a \<open>dict\<close> has the method.\<close>

fun dict_get :: "json \<Rightarrow> ustr \<Rightarrow> json \<Rightarrow> error + json" where
  "dict_get (JObj kvs) k dflt = Inr (case map_of kvs k of Some v \<Rightarrow> v | None \<Rightarrow> dflt)"
| "dict_get _ k dflt = Inl AttributeError"

section \<open>String helpers of the Python library\<close>

text \<open>The code points for which \<open>str.isspace\<close> holds; \<open>str.strip()\<close> removes them.\<close>

definition py_isspace :: "nat \<Rightarrow> bool" where
  "py_isspace c \<longleftrightarrow>
     (9 \<le> c \<and> c \<le> 13) \<or> (28 \<le> c \<and> c \<le> 32) \<or> c = 133 \<or> c = 160 \<or> c = 5760
     \<or> (8192 \<le> c \<and> c \<le> 8202) \<or> c = 8232 \<or> c = 8233 \<or> c = 8239 \<or> c = 8287
     \<or> c = 12288"

definition py_strip :: "ustr \<Rightarrow> ustr" where
  "py_strip s = rev (dropWhile py_isspace (rev (dropWhile py_isspace s)))"

definition py_startswith :: "ustr \<Rightarrow> ustr \<Rightarrow> bool" where
  "py_startswith s p \<longleftrightarrow> take (length p) s = p"

definition py_endswith :: "ustr \<Rightarrow> ustr \<Rightarrow> bool" where
  "py_endswith s p \<longleftrightarrow> length p \<le> length s \<and> drop (length s - length p) s = p"

text \<open>\<open>s.replace(old, new)\<close>: every non-overlapping occurrence, scanning from the left.\<close>

fun replace_scan :: "ustr \<Rightarrow> ustr \<Rightarrow> ustr \<Rightarrow> ustr" where
  "replace_scan old new [] = []"
| "replace_scan old new (c # cs) =
     (if py_startswith (c # cs) old
      then new @ replace_scan old new (drop (length old - 1) cs)
      else c # replace_scan old new cs)"

definition py_replace :: "ustr \<Rightarrow> ustr \<Rightarrow> ustr \<Rightarrow> ustr" where
  "py_replace s old new =
     (if old = [] then new @ concat (map (\<lambda>c. c # new) s) else replace_scan old new s)"

text \<open>\<open>s.split(sep)\<close> for a separator of one character.\<close>

fun py_split :: "ustr \<Rightarrow> nat \<Rightarrow> ustr list" where
  "py_split [] sep = [[]]"
| "py_split (c # cs) sep =
     (if c = sep then [] # py_split cs sep
      else (case py_split cs sep of w # ws \<Rightarrow> (c # w) # ws | [] \<Rightarrow> [[c]]))"

subsection \<open>\<open>int(s)\<close> on a string\<close>

text \<open>
  The model covers what \<open>int\<close> accepts in ASCII: surrounding whitespace, one optional
  sign, decimal digits, single underscores between digits. \<open>None\<close> is the
  \<open>ValueError\<close>. Decimal digits of other scripts and the interpreter's limit on the number
  of digits are not modelled.
\<close>

definition is_digit :: "nat \<Rightarrow> bool" where
  "is_digit c \<longleftrightarrow> 48 \<le> c \<and> c \<le> 57"

text \<open>
  A run of digits with single underscores between them, read after its first digit: the
  value so far, the number of digits so far, the rest of the string.
\<close>

fun digit_run :: "nat \<Rightarrow> nat \<Rightarrow> ustr \<Rightarrow> (nat \<times> nat) option" where
  "digit_run v n [] = Some (v, n)"
| "digit_run v n [c] = (if is_digit c then Some (10 * v + (c - 48), Suc n) else None)"
| "digit_run v n (c # d # cs) =
     (if is_digit c then digit_run (10 * v + (c - 48)) (Suc n) (d # cs)
      else if c = 95 \<and> is_digit d then digit_run (10 * v + (d - 48)) (Suc n) cs
      else None)"

definition digitpart :: "ustr \<Rightarrow> (nat \<times> nat) option" where
  "digitpart s =
     (case s of [] \<Rightarrow> None
      | d # ds \<Rightarrow> if is_digit d then digit_run (d - 48) 1 ds else None)"

definition unsigned_int :: "ustr \<Rightarrow> nat option" where
  "unsigned_int s = map_option fst (digitpart s)"

definition py_int_str :: "ustr \<Rightarrow> int option" where
  "py_int_str s =
     (case py_strip s of [] \<Rightarrow> None
      | c # cs \<Rightarrow>
          if c = 45 then map_option (\<lambda>n. - int n) (unsigned_int cs)
          else if c = 43 then map_option int (unsigned_int cs)
          else map_option int (unsigned_int (c # cs)))"

text \<open>
  \<open>int(x)\<close> on any loaded value: a number is truncated towards zero, a boolean is 0 or 1,
  \<open>None\<close>, a list and a dict raise \<open>TypeError\<close>.
\<close>

fun py_int :: "json \<Rightarrow> int option" where
  "py_int (JStr s) = py_int_str s"
| "py_int (JNum r) = Some (if 0 \<le> r then \<lfloor>r\<rfloor> else \<lceil>r\<rceil>)"
| "py_int (JBool b) = Some (if b then 1 else 0)"
| "py_int _ = None"

section \<open>Selection: the candidate with the smallest numeric id\<close>

text \<open>
  \<^verbatim>\<open>
  def idnum(s: str) -> int:
      try:
          return int(s)
      except Exception:
          return 10**18  # non-numeric ids lose
  \<close>
\<close>

definition idnum :: "json \<Rightarrow> int" where
  "idnum s = (case py_int s of Some n \<Rightarrow> n | None \<Rightarrow> 10 ^ 18)"

text \<open>The key function \<open>lambda b: idnum(b.get("id", ""))\<close>.\<close>

definition cand_key :: "json \<Rightarrow> error + int" where
  "cand_key b =
     (case dict_get b (str_of ''id'') (JStr []) of
        Inl e \<Rightarrow> Inl e
      | Inr v \<Rightarrow> Inr (idnum v))"

text \<open>
  \<open>min(iterable, key=f)\<close> keeps the first item and replaces it only by an item whose key
  is strictly smaller.
\<close>

fun min_scan :: "json \<Rightarrow> int \<Rightarrow> json list \<Rightarrow> error + json" where
  "min_scan best bk [] = Inr best"
| "min_scan best bk (x # xs) =
     (case cand_key x of
        Inl e \<Rightarrow> Inl e
      | Inr k \<Rightarrow> if k < bk then min_scan x k xs else min_scan best bk xs)"

definition py_min_key :: "json list \<Rightarrow> error + json" where
  "py_min_key xs =
     (case xs of
        [] \<Rightarrow> Inl ValueError
      | x # rest \<Rightarrow> (case cand_key x of Inl e \<Rightarrow> Inl e | Inr k \<Rightarrow> min_scan x k rest))"

text \<open>
  \<^verbatim>\<open>
  def pick_best_busline(cands):
      if not cands:
          return None
      return min(cands, key=lambda b: idnum(b.get("id", "")))
  \<close>
  A non-empty string or dict is iterated by \<open>min\<close> over strings, which have no \<open>get\<close>;
  a number or \<open>True\<close> is not iterable.
\<close>

definition pick_best_busline :: "json \<Rightarrow> error + json option" where
  "pick_best_busline cands =
     (if \<not> truthy cands then Inr None
      else case cands of
        JArr xs \<Rightarrow> (case py_min_key xs of Inl e \<Rightarrow> Inl e | Inr b \<Rightarrow> Inr (Some b))
      | JStr s \<Rightarrow> Inl AttributeError
      | JObj kvs \<Rightarrow> Inl AttributeError
      | _ \<Rightarrow> Inl TypeError)"

section \<open>Output file names\<close>

text \<open>
  \<^verbatim>\<open>
  def base_name(kw: str) -> str:
      s = kw.strip().replace("\uff08", "(").replace("\uff09", ")")
      return s[:-1] if s.endswith("\u8def") else s
  \<close>
  U+FF08 and U+FF09 are the full-width parentheses, U+8DEF is the character for "route".
\<close>

definition LU :: nat where
  "LU = 36335"

definition base_name :: "ustr \<Rightarrow> ustr" where
  "base_name kw =
     (let s = py_replace (py_replace (py_strip kw) [65288] (str_of ''('')) [65289] (str_of '')'')
      in if py_endswith s [LU] then take (length s - 1) s else s)"

section \<open>GCJ-02 to WGS-84\<close>

text \<open>
  Python floats are idealised as real numbers: the arithmetic is exact. The two operations
  of the transformer that can raise are written with their checks: float division raises
  \<open>ZeroDivisionError\<close> on a zero divisor, \<open>math.sqrt\<close> raises \<open>ValueError\<close> on a
  negative argument.
\<close>

definition py_div :: "real \<Rightarrow> real \<Rightarrow> error + real" where
  "py_div x y = (if y = 0 then Inl ZeroDivisionError else Inr (x / y))"

definition py_sqrt :: "real \<Rightarrow> error + real" where
  "py_sqrt x = (if x < 0 then Inl ValueError else Inr (sqrt x))"

definition bind_err :: "error + 'a \<Rightarrow> ('a \<Rightarrow> error + 'b) \<Rightarrow> error + 'b" where
  "bind_err m f = (case m of Inl e \<Rightarrow> Inl e | Inr x \<Rightarrow> f x)"

text \<open>
  \<^verbatim>\<open>
  def _out_of_china(lon, lat):
      return not (72.004 <= lon <= 137.8347 and 0.8293 <= lat <= 55.8271)
  \<close>
\<close>

definition out_of_china :: "real \<Rightarrow> real \<Rightarrow> bool" where
  "out_of_china lon lat \<longleftrightarrow>
     \<not> ((72.004 \<le> lon \<and> lon \<le> 137.8347) \<and> (0.8293 \<le> lat \<and> lat \<le> 55.8271))"

definition tlat :: "real \<Rightarrow> real \<Rightarrow> real" where
  "tlat x y =
     (- 100.0 + 2.0 * x + 3.0 * y + 0.2 * y * y + 0.1 * x * y + 0.2 * (\<bar>x\<bar> powr 0.5))
     + (20.0 * sin (6.0 * x * pi) + 20.0 * sin (2.0 * x * pi)) * 2.0 / 3.0
     + (20.0 * sin (y * pi) + 40.0 * sin (y / 3.0 * pi)) * 2.0 / 3.0
     + (160.0 * sin (y / 12.0 * pi) + 320 * sin (y * pi / 30.0)) * 2.0 / 3.0"

definition tlon :: "real \<Rightarrow> real \<Rightarrow> real" where
  "tlon x y =
     (300.0 + x + 2.0 * y + 0.1 * x * x + 0.1 * x * y + 0.1 * (\<bar>x\<bar> powr 0.5))
     + (20.0 * sin (6.0 * x * pi) + 20.0 * sin (x * pi)) * 2.0 / 3.0
     + (40.0 * sin (x / 3.0 * pi) + 150.0 * sin (x / 12.0 * pi)
        + 300.0 * sin (x / 30.0 * pi)) * 2.0 / 3.0"

definition gcj_a :: real where
  "gcj_a = 6378245.0"

definition gcj_ee :: real where
  "gcj_ee = 0.00669342162296594323"

text \<open>
  \<^verbatim>\<open>
  def gcj2wgs(lon, lat):
      if _out_of_china(lon, lat):
          return lon, lat
      a = 6378245.0
      ee = 0.00669342162296594323
      dlon = _tlon(lon - 105.0, lat - 35.0)
      dlat = _tlat(lon - 105.0, lat - 35.0)
      radlat = lat / 180.0 * math.pi
      magic = math.sin(radlat)
      magic = 1 - ee * magic * magic
      sqrtMagic = math.sqrt(magic)
      dlon = (dlon * 180.0) / (a / math.cos(radlat) * sqrtMagic * math.pi)
      dlat = (dlat * 180.0) / ((a * (1 - ee)) / (magic * sqrtMagic) * math.pi)
      return lon - dlon, lat - dlat
  \<close>
\<close>

definition gcj2wgs :: "real \<Rightarrow> real \<Rightarrow> error + (real \<times> real)" where
  "gcj2wgs lon lat =
     (if out_of_china lon lat then Inr (lon, lat)
      else
        let dlon = tlon (lon - 105.0) (lat - 35.0);
            dlat = tlat (lon - 105.0) (lat - 35.0);
            radlat = lat / 180.0 * pi;
            magic0 = sin radlat;
            magic = 1 - gcj_ee * magic0 * magic0
        in bind_err (py_sqrt magic) (\<lambda>sqrtMagic.
           bind_err (py_div gcj_a (cos radlat)) (\<lambda>q1.
           bind_err (py_div (dlon * 180.0) (q1 * sqrtMagic * pi)) (\<lambda>dlon'.
           bind_err (py_div (gcj_a * (1 - gcj_ee)) (magic * sqrtMagic)) (\<lambda>q2.
           bind_err (py_div (dlat * 180.0) (q2 * pi)) (\<lambda>dlat'.
           Inr (lon - dlon', lat - dlat')))))))"

section \<open>Parsing the polyline\<close>

subsection \<open>\<open>float(s)\<close> on a string\<close>

text \<open>
  The model covers decimal notation: surrounding whitespace, one optional sign, digits
  with an optional point and fraction, an optional exponent. \<open>None\<close> is the
  \<open>ValueError\<close>. The spellings of infinity and NaN, which \<open>float\<close> accepts and which
  are no real numbers, are not modelled.
\<close>

definition split_first :: "(nat \<Rightarrow> bool) \<Rightarrow> ustr \<Rightarrow> ustr \<times> ustr option" where
  "split_first P s =
     (case dropWhile (\<lambda>c. \<not> P c) s of
        [] \<Rightarrow> (s, None)
      | c # r \<Rightarrow> (takeWhile (\<lambda>c. \<not> P c) s, Some r))"

definition mantissa :: "ustr \<Rightarrow> real option" where
  "mantissa m =
     (case split_first (\<lambda>c. c = 46) m of
        (ip, None) \<Rightarrow> map_option (\<lambda>(v, n). real v) (digitpart ip)
      | (ip, Some fp) \<Rightarrow>
          if ip = [] then map_option (\<lambda>(w, n). real w / 10 ^ n) (digitpart fp)
          else if fp = [] then map_option (\<lambda>(v, n). real v) (digitpart ip)
          else (case (digitpart ip, digitpart fp) of
                  (Some (v, k), Some (w, n)) \<Rightarrow> Some (real v + real w / 10 ^ n)
                | _ \<Rightarrow> None))"

definition exponent :: "ustr \<Rightarrow> int option" where
  "exponent e =
     (case e of [] \<Rightarrow> None
      | c # cs \<Rightarrow>
          if c = 45 then map_option (\<lambda>(v, n). - int v) (digitpart cs)
          else if c = 43 then map_option (\<lambda>(v, n). int v) (digitpart cs)
          else map_option (\<lambda>(v, n). int v) (digitpart (c # cs)))"

definition pow10 :: "int \<Rightarrow> real" where
  "pow10 k = (if 0 \<le> k then 10 ^ nat k else 1 / 10 ^ nat (- k))"

definition unsigned_float :: "ustr \<Rightarrow> real option" where
  "unsigned_float body =
     (case split_first (\<lambda>c. c = 101 \<or> c = 69) body of
        (m, None) \<Rightarrow> mantissa m
      | (m, Some e) \<Rightarrow>
          (case (mantissa m, exponent e) of
             (Some v, Some k) \<Rightarrow> Some (v * pow10 k)
           | _ \<Rightarrow> None))"

definition py_float :: "ustr \<Rightarrow> real option" where
  "py_float s =
     (case py_strip s of [] \<Rightarrow> None
      | c # cs \<Rightarrow>
          if c = 45 then map_option uminus (unsigned_float cs)
          else if c = 43 then unsigned_float cs
          else unsigned_float (c # cs))"

subsection \<open>The polyline\<close>

text \<open>
  \<^verbatim>\<open>
  def parse_polyline(poly: str):
      pts = []
      for seg in poly.split(";"):
          s = seg.strip()
          if not s:
              continue
          x, y = s.split(",")
          pts.append((float(x), float(y)))
      return pts
  \<close>
  Unpacking into \<open>x, y\<close> raises \<open>ValueError\<close> unless the split has exactly two parts.
\<close>

definition parse_pair :: "ustr \<Rightarrow> error + (real \<times> real)" where
  "parse_pair s =
     (case py_split s 44 of
        [x, y] \<Rightarrow>
          (case py_float x of
             None \<Rightarrow> Inl ValueError
           | Some a \<Rightarrow> (case py_float y of None \<Rightarrow> Inl ValueError | Some b \<Rightarrow> Inr (a, b)))
      | _ \<Rightarrow> Inl ValueError)"

fun parse_segs :: "(real \<times> real) list \<Rightarrow> ustr list \<Rightarrow> error + (real \<times> real) list" where
  "parse_segs pts [] = Inr pts"
| "parse_segs pts (seg # segs) =
     (let s = py_strip seg
      in if s = [] then parse_segs pts segs
         else (case parse_pair s of
                 Inl e \<Rightarrow> Inl e
               | Inr p \<Rightarrow> parse_segs (pts @ [p]) segs))"

fun parse_polyline :: "json \<Rightarrow> error + (real \<times> real) list" where
  "parse_polyline (JStr poly) = parse_segs [] (py_split poly 59)"
| "parse_polyline _ = Inl AttributeError"

section \<open>GeoJSON features\<close>

text \<open>
  \<open>d.get(k)\<close> and \<open>d.get(k, dflt)\<close> on a value already known to be a dict, \<open>d[k]\<close>,
  \<open>x[0]\<close> and iteration (\<open>for\<close>, \<open>list.extend\<close>) on any loaded value. A dict is
  iterated by its keys, a string by its characters.
\<close>

definition field_or :: "(ustr \<times> json) list \<Rightarrow> ustr \<Rightarrow> json \<Rightarrow> json" where
  "field_or kvs k dflt = (case map_of kvs k of Some v \<Rightarrow> v | None \<Rightarrow> dflt)"

definition field :: "(ustr \<times> json) list \<Rightarrow> ustr \<Rightarrow> json" where
  "field kvs k = field_or kvs k JNull"

fun py_getitem :: "json \<Rightarrow> ustr \<Rightarrow> error + json" where
  "py_getitem (JObj kvs) k = (case map_of kvs k of Some v \<Rightarrow> Inr v | None \<Rightarrow> Inl KeyError)"
| "py_getitem _ k = Inl TypeError"

fun first_item :: "json \<Rightarrow> error + json" where
  "first_item (JArr []) = Inl IndexError"
| "first_item (JArr (x # xs)) = Inr x"
| "first_item (JStr []) = Inl IndexError"
| "first_item (JStr (c # cs)) = Inr (JStr [c])"
| "first_item (JObj kvs) = Inl KeyError"
| "first_item _ = Inl TypeError"

fun py_iter :: "json \<Rightarrow> error + json list" where
  "py_iter (JArr xs) = Inr xs"
| "py_iter (JStr s) = Inr (map (\<lambda>c. JStr [c]) s)"
| "py_iter (JObj kvs) = Inr (map (\<lambda>kv. JStr (fst kv)) kvs)"
| "py_iter _ = Inl TypeError"

fun map_err :: "('a \<Rightarrow> error + 'b) \<Rightarrow> 'a list \<Rightarrow> error + 'b list" where
  "map_err f [] = Inr []"
| "map_err f (x # xs) =
     (case f x of
        Inl e \<Rightarrow> Inl e
      | Inr y \<Rightarrow> (case map_err f xs of Inl e \<Rightarrow> Inl e | Inr ys \<Rightarrow> Inr (y # ys)))"

text \<open>
  A coordinate pair as it is serialised: the tuple \<open>(lon, lat)\<close> and the list
  \<open>[lon, lat]\<close> both become a two-element array.
\<close>

definition coord_json :: "real \<times> real \<Rightarrow> json" where
  "coord_json p = JArr [JNum (fst p), JNum (snd p)]"

definition to_fc :: "json list \<Rightarrow> json" where
  "to_fc features =
     JObj [(str_of ''type'', JStr (str_of ''FeatureCollection'')),
           (str_of ''features'', JArr features)]"

definition feature_line :: "(real \<times> real) list \<Rightarrow> json \<Rightarrow> json" where
  "feature_line coords_wgs props =
     JObj [(str_of ''type'', JStr (str_of ''Feature'')),
           (str_of ''geometry'',
              JObj [(str_of ''type'', JStr (str_of ''LineString'')),
                    (str_of ''coordinates'', JArr (map coord_json coords_wgs))]),
           (str_of ''properties'', props)]"

definition feature_point :: "real \<Rightarrow> real \<Rightarrow> json \<Rightarrow> json" where
  "feature_point lon lat props =
     JObj [(str_of ''type'', JStr (str_of ''Feature'')),
           (str_of ''geometry'',
              JObj [(str_of ''type'', JStr (str_of ''Point'')),
                    (str_of ''coordinates'', coord_json (lon, lat))]),
           (str_of ''properties'', props)]"

text \<open>
  One stop of the detail record \<open>L\<close> (a dict with the fields \<open>lkv\<close>):
  \<^verbatim>\<open>
  x, y = map(float, s["location"].split(","))
  wx, wy = gcj2wgs(x, y)
  stop_feats.append(feature_point(wx, wy, {
      "route_id": L.get("id"), "route_name": L.get("name"), "stop_name": s["name"]}))
  \<close>
\<close>

fun parse_location :: "json \<Rightarrow> error + (real \<times> real)" where
  "parse_location (JStr loc) = parse_pair loc"
| "parse_location _ = Inl AttributeError"

definition stop_feature :: "(ustr \<times> json) list \<Rightarrow> json \<Rightarrow> error + json" where
  "stop_feature lkv s =
     bind_err (py_getitem s (str_of ''location'')) (\<lambda>loc.
     bind_err (parse_location loc) (\<lambda>xy.
     bind_err (gcj2wgs (fst xy) (snd xy)) (\<lambda>w.
     bind_err (py_getitem s (str_of ''name'')) (\<lambda>stop_name.
     Inr (feature_point (fst w) (snd w)
            (JObj [(str_of ''route_id'', field lkv (str_of ''id'')),
                   (str_of ''route_name'', field lkv (str_of ''name'')),
                   (str_of ''stop_name'', stop_name)]))))))"

fun stop_loop :: "(ustr \<times> json) list \<Rightarrow> json list \<Rightarrow> json list \<Rightarrow> error + json list" where
  "stop_loop lkv stop_feats [] = Inr stop_feats"
| "stop_loop lkv stop_feats (s # ss) =
     (case stop_feature lkv s of
        Inl e \<Rightarrow> Inl e
      | Inr f \<Rightarrow> stop_loop lkv (stop_feats @ [f]) ss)"

text \<open>
  Steps 7 and 8 on the detail record \<open>L\<close>: the route feature and the stop features.
  \<^verbatim>\<open>
  coords_gcj = parse_polyline(L.get("polyline", ""))
  coords_wgs = [gcj2wgs(x, y) for x, y in coords_gcj]
  route_fc = to_fc([feature_line(coords_wgs, {"route_id": L.get("id"), ...})])
  stop_feats = []
  for s in L.get("busstops", []): ...
  \<close>
\<close>

definition route_props :: "(ustr \<times> json) list \<Rightarrow> json" where
  "route_props lkv =
     JObj [(str_of ''route_id'', field lkv (str_of ''id'')),
           (str_of ''name'', field lkv (str_of ''name'')),
           (str_of ''type'', field lkv (str_of ''type'')),
           (str_of ''company'', field lkv (str_of ''company'')),
           (str_of ''origin'', field lkv (str_of ''start_stop'')),
           (str_of ''destination'', field lkv (str_of ''end_stop''))]"

fun build_features :: "json \<Rightarrow> error + (json \<times> json list)" where
  "build_features (JObj lkv) =
     bind_err (parse_polyline (field_or lkv (str_of ''polyline'') (JStr []))) (\<lambda>coords_gcj.
     bind_err (map_err (\<lambda>p. gcj2wgs (fst p) (snd p)) coords_gcj) (\<lambda>coords_wgs.
     bind_err (py_iter (field_or lkv (str_of ''busstops'') (JArr []))) (\<lambda>stops.
     bind_err (stop_loop lkv [] stops) (\<lambda>stop_feats.
     Inr (feature_line coords_wgs (route_props lkv), stop_feats)))))"
| "build_features _ = Inl AttributeError"

section \<open>The batch orchestrator\<close>

text \<open>
  The world the loop of \<open>run\<close> acts on: the entries of the output directory by file name,
  the requests sent so far, the lines printed so far, and the two lists accumulated for
  the preview. Printing is taken never to raise: the encoding and error handler of the
  output stream belong to the environment, unlike the encoding of the files, which the
  code fixes. A regular file is \<open>Json_file j\<close> when its text is the serialisation of
  \<open>j\<close> (what \<open>json.dumps\<close> writes and \<open>json.loads\<close> reads back) and \<open>Other_file\<close>
  when its text does not load, as that of an empty file. A name with a slash is an entry of
  a directory below the output directory.
\<close>

datatype fentry = Json_file json | Other_file | Directory

datatype api_call = Linename ustr ustr | Lineid ustr json

datatype log =
    Skip_exists ustr ustr | Warn_load error | Querying ustr | Linename_failed json
  | No_candidate | Picked json json json | Lineid_failed json | Wrote ustr ustr

record state =
  files :: "ustr \<rightharpoonup> fentry"
  calls :: "api_call list"
  logs :: "log list"
  all_route_feats :: "json list"
  all_stop_feats :: "json list"

text \<open>
  The two endpoints. A response may depend on the requests made before it; \<open>Inl\<close> is an
  exception of \<open>http_get\<close> or of \<open>json.loads\<close>.
\<close>

record env =
  api_linename :: "api_call list \<Rightarrow> ustr \<Rightarrow> ustr \<Rightarrow> error + json"
  api_lineid :: "api_call list \<Rightarrow> ustr \<Rightarrow> json \<Rightarrow> error + json"

text \<open>
  The result of a stateful operation: \<open>Inr s\<close> when it returns in the state \<open>s\<close>,
  \<open>Inl (e, s)\<close> when the exception \<open>e\<close> leaves it in the state \<open>s\<close>.
\<close>

type_synonym outcome = "(error \<times> state) + state"

definition final_state :: "outcome \<Rightarrow> state" where
  "final_state r = (case r of Inl es \<Rightarrow> snd es | Inr s \<Rightarrow> s)"

definition raised :: "outcome \<Rightarrow> error option" where
  "raised r = (case r of Inl es \<Rightarrow> Some (fst es) | Inr s \<Rightarrow> None)"

definition add_log :: "log \<Rightarrow> state \<Rightarrow> state" where
  "add_log l s = s\<lparr>logs := logs s @ [l]\<rparr>"

definition add_call :: "api_call \<Rightarrow> state \<Rightarrow> state" where
  "add_call c s = s\<lparr>calls := calls s @ [c]\<rparr>"

definition route_path :: "ustr \<Rightarrow> ustr" where
  "route_path base = str_of ''route_'' @ base @ str_of ''.geojson''"

definition stops_path :: "ustr \<Rightarrow> ustr" where
  "stops_path base = str_of ''stop_'' @ base @ str_of ''.geojson''"

fun read_json :: "fentry option \<Rightarrow> error + json" where
  "read_json (Some (Json_file j)) = Inr j"
| "read_json (Some Other_file) = Inl ValueError"
| "read_json (Some Directory) = Inl OSError"
| "read_json None = Inl OSError"

text \<open>
  \<open>path.write_text(json.dumps(doc, ensure_ascii=False), "utf-8")\<close> opens the file for
  writing and then encodes and writes the text. Opening raises \<open>ValueError\<close> for a name
  with a null character and \<open>OSError\<close> when the target is a directory or when the name
  has a slash and the part before the last slash is no directory of the map; the map is
  then as it was. Opening creates or empties the file; \<open>json.dumps\<close> keeps a lone
  surrogate (U+D800 to U+DFFF) of a string as it is, encoding it raises
  \<open>UnicodeEncodeError\<close> (a \<open>ValueError\<close>), and the file stays empty, which is a file
  that does not load. What depends on the system rather than on the program's input
  (permissions, a full disk, the longest name the file system takes) is not modelled.
\<close>

definition is_surrogate :: "nat \<Rightarrow> bool" where
  "is_surrogate c \<longleftrightarrow> 55296 \<le> c \<and> c \<le> 57343"

fun has_surrogate :: "json \<Rightarrow> bool" where
  "has_surrogate (JStr s) = list_ex is_surrogate s"
| "has_surrogate (JArr xs) = list_ex has_surrogate xs"
| "has_surrogate (JObj kvs) =
     list_ex (\<lambda>kv. list_ex is_surrogate (fst kv) \<or> has_surrogate (snd kv)) kvs"
| "has_surrogate _ = False"

definition parent_of :: "ustr \<Rightarrow> ustr" where
  "parent_of path = rev (drop 1 (dropWhile (\<lambda>c. c \<noteq> 47) (rev path)))"

definition write_text :: "ustr \<Rightarrow> json \<Rightarrow> state \<Rightarrow> outcome" where
  "write_text path doc s =
     (if 0 \<in> set path then Inl (ValueError, s)
      else if files s path = Some Directory then Inl (OSError, s)
      else if 47 \<in> set path \<and> files s (parent_of path) \<noteq> Some Directory
        then Inl (OSError, s)
      else if has_surrogate doc
        then Inl (ValueError, s\<lparr>files := (files s)(path \<mapsto> Other_file)\<rparr>)
      else Inr (s\<lparr>files := (files s)(path \<mapsto> Json_file doc)\<rparr>))"

text \<open>
  The branch for outputs that exist:
  \<^verbatim>\<open>
  try:
      rfc = json.loads(route_path.read_text("utf-8"))
      sfc = json.loads(stops_path.read_text("utf-8"))
      all_route_feats.extend(rfc.get("features", []))
      all_stop_feats.extend(sfc.get("features", []))
  except Exception as e:
      print(f"[warn] failed to load existing outputs for preview: {e}")
  \<close>
\<close>

definition features_of :: "json \<Rightarrow> error + json list" where
  "features_of fc = bind_err (dict_get fc (str_of ''features'') (JArr [])) py_iter"

definition load_existing :: "ustr \<Rightarrow> ustr \<Rightarrow> state \<Rightarrow> state" where
  "load_existing rp sp s =
     (case read_json (files s rp) of
        Inl e \<Rightarrow> add_log (Warn_load e) s
      | Inr rfc \<Rightarrow>
          (case read_json (files s sp) of
             Inl e \<Rightarrow> add_log (Warn_load e) s
           | Inr sfc \<Rightarrow>
               (case features_of rfc of
                  Inl e \<Rightarrow> add_log (Warn_load e) s
                | Inr rf \<Rightarrow>
                    let s1 = s\<lparr>all_route_feats := all_route_feats s @ rf\<rparr>
                    in (case features_of sfc of
                          Inl e \<Rightarrow> add_log (Warn_load e) s1
                        | Inr sf \<Rightarrow> s1\<lparr>all_stop_feats := all_stop_feats s1 @ sf\<rparr>))))"

text \<open>
  Step 9:
  \<^verbatim>\<open>
  route_path.write_text(json.dumps(route_fc, ensure_ascii=False), "utf-8")
  stops_path.write_text(json.dumps(stops_fc, ensure_ascii=False), "utf-8")
  print(f"  wrote {route_path.name}, {stops_path.name}")
  all_route_feats.extend(route_fc["features"])
  all_stop_feats.extend(stop_feats)
  \<close>
\<close>

definition write_outputs :: "ustr \<Rightarrow> ustr \<Rightarrow> json \<Rightarrow> json list \<Rightarrow> state \<Rightarrow> outcome" where
  "write_outputs rp sp route_feat stop_feats s =
     (case write_text rp (to_fc [route_feat]) s of
        Inl es \<Rightarrow> Inl es
      | Inr s1 \<Rightarrow>
          (case write_text sp (to_fc stop_feats) s1 of
             Inl es \<Rightarrow> Inl es
           | Inr s2 \<Rightarrow>
               Inr ((add_log (Wrote rp sp) s2)
                      \<lparr>all_route_feats := all_route_feats s2 @ [route_feat],
                       all_stop_feats := all_stop_feats s2 @ stop_feats\<rparr>)))"

text \<open>
  Steps 5 to 9, after a candidate \<open>best\<close> (a dict with the fields \<open>bkv\<close>) was picked:
  \<^verbatim>\<open>
  line_id = best.get("id")
  print(f"  -> pick id={line_id}, name={best.get('name')}, company={best.get('company')}")
  time.sleep(0.2)
  detail = api_lineid(city, line_id)
  if detail.get("status") != "1" or not detail.get("buslines"):
      print(f"  ! lineid failed: info={detail.get('info')}")
      continue
  L = detail["buslines"][0]
  \<close>
\<close>

definition fetch_detail ::
    "env \<Rightarrow> ustr \<Rightarrow> ustr \<Rightarrow> ustr \<Rightarrow> (ustr \<times> json) list \<Rightarrow> state \<Rightarrow> outcome" where
  "fetch_detail ev city rp sp bkv s =
     (let line_id = field bkv (str_of ''id'');
          s1 = add_log (Picked line_id (field bkv (str_of ''name''))
                          (field bkv (str_of ''company''))) s;
          s2 = add_call (Lineid city line_id) s1
      in case api_lineid ev (calls s1) city line_id of
           Inl e \<Rightarrow> Inl (e, s2)
         | Inr detail \<Rightarrow>
             (case detail of
                JObj dkv \<Rightarrow>
                  if field dkv (str_of ''status'') \<noteq> JStr (str_of ''1'')
                     \<or> \<not> truthy (field dkv (str_of ''buslines''))
                  then Inr (add_log (Lineid_failed (field dkv (str_of ''info''))) s2)
                  else
                    (case bind_err (first_item (field dkv (str_of ''buslines''))) build_features of
                       Inl e \<Rightarrow> Inl (e, s2)
                     | Inr fs \<Rightarrow> write_outputs rp sp (fst fs) (snd fs) s2)
              | _ \<Rightarrow> Inl (AttributeError, s2)))"

text \<open>
  Steps 3 and 4; the response \<open>ln\<close> is \<open>resp\<close> below, since \<open>ln\<close> is the logarithm:
  \<^verbatim>\<open>
  print(f"[linename] querying: {kw}")
  ln = api_linename(city, kw)
  if ln.get("status") != "1":
      print(f"  ! linename failed: info={ln.get('info')}")
      continue
  best = pick_best_busline(ln.get("buslines", []))
  if not best:
      print("  ! no candidate after selection")
      continue
  \<close>
\<close>

definition fetch_keyword :: "env \<Rightarrow> ustr \<Rightarrow> ustr \<Rightarrow> ustr \<Rightarrow> ustr \<Rightarrow> state \<Rightarrow> outcome" where
  "fetch_keyword ev city kw rp sp s =
     (let s1 = add_log (Querying kw) s;
          s2 = add_call (Linename city kw) s1
      in case api_linename ev (calls s1) city kw of
           Inl e \<Rightarrow> Inl (e, s2)
         | Inr resp \<Rightarrow>
             (case resp of
                JObj lkv \<Rightarrow>
                  if field lkv (str_of ''status'') \<noteq> JStr (str_of ''1'')
                  then Inr (add_log (Linename_failed (field lkv (str_of ''info''))) s2)
                  else
                    (case pick_best_busline (field_or lkv (str_of ''buslines'') (JArr [])) of
                       Inl e \<Rightarrow> Inl (e, s2)
                     | Inr None \<Rightarrow> Inr (add_log No_candidate s2)
                     | Inr (Some best) \<Rightarrow>
                         if \<not> truthy best then Inr (add_log No_candidate s2)
                         else (case best of
                                 JObj bkv \<Rightarrow> fetch_detail ev city rp sp bkv s2
                               | _ \<Rightarrow> Inl (AttributeError, s2)))
              | _ \<Rightarrow> Inl (AttributeError, s2)))"

text \<open>
  The body of the loop over the keywords:
  \<^verbatim>\<open>
  kw = kw.strip()
  if not kw:
      continue
  base = base_name(kw)
  route_path = outdir / f"route_{base}.geojson"
  stops_path = outdir / f"stop_{base}.geojson"
  if not overwrite and route_path.exists() and stops_path.exists():
      print(f"[skip] already exists: {route_path.name}, {stops_path.name}")
      ...
      continue
  \<close>
\<close>

definition keyword_step :: "env \<Rightarrow> ustr \<Rightarrow> bool \<Rightarrow> state \<Rightarrow> ustr \<Rightarrow> outcome" where
  "keyword_step ev city overwrite s kw0 =
     (let kw = py_strip kw0
      in if kw = [] then Inr s
         else
           let rp = route_path (base_name kw);
               sp = stops_path (base_name kw)
           in if \<not> overwrite \<and> files s rp \<noteq> None \<and> files s sp \<noteq> None
              then Inr (load_existing rp sp (add_log (Skip_exists rp sp) s))
              else fetch_keyword ev city kw rp sp s)"

text \<open>
  The loop \<open>for kw in keywords\<close>: an exception that leaves the body leaves the loop.
\<close>

fun run_keywords :: "env \<Rightarrow> ustr \<Rightarrow> bool \<Rightarrow> state \<Rightarrow> ustr list \<Rightarrow> outcome" where
  "run_keywords ev city overwrite s [] = Inr s"
| "run_keywords ev city overwrite s (kw # kws) =
     (case keyword_step ev city overwrite s kw of
        Inl es \<Rightarrow> Inl es
      | Inr s' \<Rightarrow> run_keywords ev city overwrite s' kws)"

text \<open>
  \<open>run\<close> up to the preview: the directory as found, nothing requested, printed or
  accumulated yet. The preview stage that follows writes only the preview file.
\<close>

definition init_state :: "(ustr \<rightharpoonup> fentry) \<Rightarrow> state" where
  "init_state fs =
     \<lparr>files = fs, calls = [], logs = [], all_route_feats = [], all_stop_feats = []\<rparr>"

definition run :: "env \<Rightarrow> ustr \<Rightarrow> ustr list \<Rightarrow> (ustr \<rightharpoonup> fentry) \<Rightarrow> bool \<Rightarrow> outcome" where
  "run ev city keywords outdir overwrite =
     run_keywords ev city overwrite (init_state outdir) keywords"

section \<open>Definitions used to state the properties\<close>

text \<open>
  The base name as the specification words it: trim the surrounding whitespace, replace
  the full-width parentheses by the ASCII ones, strip one trailing U+8DEF if present.
\<close>

definition norm_paren :: "nat \<Rightarrow> nat" where
  "norm_paren c = (if c = 65288 then 40 else if c = 65289 then 41 else c)"

definition base_name_spec :: "ustr \<Rightarrow> ustr" where
  "base_name_spec kw =
     (let s = map norm_paren (py_strip kw)
      in if s \<noteq> [] \<and> last s = LU then butlast s else s)"

text \<open>The key of a candidate that is a dict with the fields \<open>kv\<close>.\<close>

definition id_key :: "(ustr \<times> json) list \<Rightarrow> int" where
  "id_key kv = idnum (field_or kv (str_of ''id'') (JStr []))"

text \<open>
  Four candidates: id 17, no id, id 5, and id 5 again behind a space.
\<close>

definition ties_example :: "(ustr \<times> json) list list" where
  "ties_example =
     [[(str_of ''id'', JStr (str_of ''17''))], [(str_of ''name'', JStr (str_of ''B1''))],
      [(str_of ''id'', JStr (str_of ''5''))], [(str_of ''id'', JStr (str_of '' 5''))]]"

text \<open>
  A well-formed number of a polyline: a string that \<open>float\<close> accepts, without
  whitespace and without the two separators. A well-formed pair is two of them around a
  comma; the polyline of a list of pairs joins them with semicolons.
\<close>

definition number_str :: "ustr \<Rightarrow> real \<Rightarrow> bool" where
  "number_str a x \<longleftrightarrow>
     py_float a = Some x \<and> (\<forall>c\<in>set a. c \<noteq> 44 \<and> c \<noteq> 59 \<and> \<not> py_isspace c)"

definition pair_str :: "ustr \<times> ustr \<Rightarrow> ustr" where
  "pair_str p = fst p @ [44] @ snd p"

fun polyline_of :: "(ustr \<times> ustr) list \<Rightarrow> ustr" where
  "polyline_of [] = []"
| "polyline_of [p] = pair_str p"
| "polyline_of (p # q # ps) = pair_str p @ [59] @ polyline_of (q # ps)"

definition pair_of :: "(ustr \<times> ustr) \<Rightarrow> (real \<times> real) \<Rightarrow> bool" where
  "pair_of p xy \<longleftrightarrow> number_str (fst p) (fst xy) \<and> number_str (snd p) (snd xy)"

text \<open>The \<open>coordinates\<close> member of the geometry of a GeoJSON feature.\<close>

definition geometry_coordinates :: "json \<Rightarrow> json" where
  "geometry_coordinates f =
     (case f of
        JObj kv \<Rightarrow>
          (case map_of kv (str_of ''geometry'') of
             Some (JObj g) \<Rightarrow> field g (str_of ''coordinates'')
           | _ \<Rightarrow> JNull)
      | _ \<Rightarrow> JNull)"

definition polyline_example :: "(ustr \<times> ustr) list" where
  "polyline_example =
     [(str_of ''120.5'', str_of ''150''), (str_of ''-3'', str_of ''28.25'')]"

text \<open>
  A small world for the concrete checks. The keyword "24" + U+8DEF finds the candidates
  1023 and 88 and a detail record with two points and one stop; "0" + U+8DEF gets the
  status "0" from the search; "9" + U+8DEF finds the candidate 9, whose detail query
  gets the status "0"; "5" + U+8DEF finds one candidate, an empty dict; "7" + U+8DEF
  finds the candidate 7, whose polyline has a segment of three numbers; "B1" + U+8DEF
  finds the candidate 31, whose polyline and stop start at the point (105, 35) inside the
  envelope; "S" + U+8DEF finds the candidate 55, whose name is the lone surrogate U+D83D;
  "a/b" + U+8DEF is answered as "24" + U+8DEF is.
\<close>

definition demo_city :: ustr where
  "demo_city = [28201, 24030]"

definition kw24 :: ustr where
  "kw24 = str_of ''24'' @ [LU]"

definition kw0 :: ustr where
  "kw0 = str_of ''0'' @ [LU]"

definition kw9 :: ustr where
  "kw9 = str_of ''9'' @ [LU]"

definition kw5 :: ustr where
  "kw5 = str_of ''5'' @ [LU]"

definition kw7 :: ustr where
  "kw7 = str_of ''7'' @ [LU]"

definition kwB1 :: ustr where
  "kwB1 = str_of ''B1'' @ [LU]"

definition inside_line :: "(ustr \<times> json) list" where
  "inside_line =
     [(str_of ''id'', JStr (str_of ''31'')),
      (str_of ''name'', JStr (str_of ''B1'')),
      (str_of ''polyline'', JStr (str_of ''105,35;1.5,2'')),
      (str_of ''busstops'',
         JArr [JObj [(str_of ''name'', JStr (str_of ''C'')),
                     (str_of ''location'', JStr (str_of ''105,35''))]])]"

definition kwS :: ustr where
  "kwS = str_of ''S'' @ [LU]"

definition kw_slash :: ustr where
  "kw_slash = str_of ''a/b'' @ [LU]"

definition surrogate_line :: "(ustr \<times> json) list" where
  "surrogate_line =
     [(str_of ''id'', JStr (str_of ''55'')), (str_of ''name'', JStr [55357])]"

definition demo_line :: "(ustr \<times> json) list" where
  "demo_line =
     [(str_of ''id'', JStr (str_of ''88'')),
      (str_of ''name'', JStr (str_of ''24'')),
      (str_of ''polyline'', JStr (str_of ''1.5,2;3,4'')),
      (str_of ''busstops'',
         JArr [JObj [(str_of ''name'', JStr (str_of ''A'')),
                     (str_of ''location'', JStr (str_of ''1.5,2''))]])]"

definition ok_fields :: "json list \<Rightarrow> (ustr \<times> json) list" where
  "ok_fields buslines =
     [(str_of ''status'', JStr (str_of ''1'')), (str_of ''buslines'', JArr buslines)]"

definition ok_response :: "json list \<Rightarrow> json" where
  "ok_response buslines = JObj (ok_fields buslines)"

definition failed_fields :: "(ustr \<times> json) list" where
  "failed_fields =
     [(str_of ''status'', JStr (str_of ''0'')),
      (str_of ''info'', JStr (str_of ''INVALID_PARAMS''))]"

definition failed_response :: json where
  "failed_response = JObj failed_fields"

definition demo_linename :: "api_call list \<Rightarrow> ustr \<Rightarrow> ustr \<Rightarrow> error + json" where
  "demo_linename h city kw =
     (if kw = kw0 then Inr failed_response
      else if kw = kw9 then Inr (ok_response [JObj [(str_of ''id'', JStr (str_of ''9''))]])
      else if kw = kw5 then Inr (ok_response [JObj []])
      else if kw = kw7 then Inr (ok_response [JObj [(str_of ''id'', JStr (str_of ''7''))]])
      else if kw = kwB1 then Inr (ok_response [JObj [(str_of ''id'', JStr (str_of ''31''))]])
      else if kw = kwS then Inr (ok_response [JObj [(str_of ''id'', JStr (str_of ''55''))]])
      else Inr (ok_response [JObj [(str_of ''id'', JStr (str_of ''1023''))],
                             JObj [(str_of ''id'', JStr (str_of ''88''))]]))"

definition demo_lineid :: "api_call list \<Rightarrow> ustr \<Rightarrow> json \<Rightarrow> error + json" where
  "demo_lineid h city line_id =
     (if line_id = JStr (str_of ''9'') then Inr failed_response
      else if line_id = JStr (str_of ''7'')
        then Inr (ok_response [JObj [(str_of ''id'', JStr (str_of ''7'')),
                                     (str_of ''polyline'', JStr (str_of ''1,2,3''))]])
      else if line_id = JStr (str_of ''31'') then Inr (ok_response [JObj inside_line])
      else if line_id = JStr (str_of ''55'') then Inr (ok_response [JObj surrogate_line])
      else Inr (ok_response [JObj demo_line]))"

definition demo_env :: env where
  "demo_env = \<lparr>api_linename = demo_linename, api_lineid = demo_lineid\<rparr>"

definition demo_after :: state where
  "demo_after = final_state (run demo_env demo_city [kw24] Map.empty False)"

text \<open>
  A keyword is skipped with a logged message: its step returns, no file and neither
  accumulation has changed, the last line printed reports the failure, and the loop goes
  on with the remaining keywords.
\<close>

fun is_failure_log :: "log \<Rightarrow> bool" where
  "is_failure_log (Linename_failed info) = True"
| "is_failure_log No_candidate = True"
| "is_failure_log (Lineid_failed info) = True"
| "is_failure_log _ = False"

definition skipped :: "env \<Rightarrow> ustr \<Rightarrow> bool \<Rightarrow> state \<Rightarrow> ustr \<Rightarrow> ustr list \<Rightarrow> bool" where
  "skipped ev city overwrite s kw kws =
     (case keyword_step ev city overwrite s kw of
        Inl es \<Rightarrow> False
      | Inr s' \<Rightarrow>
          files s' = files s
          \<and> all_route_feats s' = all_route_feats s
          \<and> all_stop_feats s' = all_stop_feats s
          \<and> take (length (logs s)) (logs s') = logs s
          \<and> length (logs s) < length (logs s')
          \<and> is_failure_log (last (logs s'))
          \<and> run_keywords ev city overwrite s (kw # kws) = run_keywords ev city overwrite s' kws)"

text \<open>
  The correction branch of \<open>gcj2wgs\<close> as plain arithmetic, without the raising checks,
  and the value of the transformer at a point: the point itself outside the envelope, the
  corrected point inside.
\<close>

definition wgs_inside :: "real \<Rightarrow> real \<Rightarrow> real \<times> real" where
  "wgs_inside lon lat =
     (let dlon = tlon (lon - 105.0) (lat - 35.0);
          dlat = tlat (lon - 105.0) (lat - 35.0);
          radlat = lat / 180.0 * pi;
          magic = 1 - gcj_ee * sin radlat * sin radlat;
          sqrtMagic = sqrt magic
      in (lon - (dlon * 180.0) / (gcj_a / cos radlat * sqrtMagic * pi),
          lat - (dlat * 180.0) / ((gcj_a * (1 - gcj_ee)) / (magic * sqrtMagic) * pi)))"

definition wgs_of :: "real \<times> real \<Rightarrow> real \<times> real" where
  "wgs_of p = (if out_of_china (fst p) (snd p) then p else wgs_inside (fst p) (snd p))"

text \<open>
  The coordinates of a detail record in the standard frame, as the specification has them:
  the transformer applied to every point parsed from the polyline, and to the point
  parsed from the location of a stop; \<open>route_wgs\<close> and \<open>stop_wgs\<close> are the same
  with the value of the transformer written out.
\<close>

definition route_coords :: "(ustr \<times> json) list \<Rightarrow> error + json" where
  "route_coords lkv =
     bind_err (parse_polyline (field_or lkv (str_of ''polyline'') (JStr []))) (\<lambda>gcj.
     bind_err (map_err (\<lambda>q. gcj2wgs (fst q) (snd q)) gcj) (\<lambda>wgs.
     Inr (JArr (map coord_json wgs))))"

definition stop_coords :: "json \<Rightarrow> error + json" where
  "stop_coords st =
     bind_err (py_getitem st (str_of ''location'')) (\<lambda>loc.
     bind_err (parse_location loc) (\<lambda>xy.
     bind_err (gcj2wgs (fst xy) (snd xy)) (\<lambda>w.
     Inr (coord_json w))))"

definition route_wgs :: "(ustr \<times> json) list \<Rightarrow> error + json" where
  "route_wgs lkv =
     bind_err (parse_polyline (field_or lkv (str_of ''polyline'') (JStr []))) (\<lambda>gcj.
     Inr (JArr (map (\<lambda>q. coord_json (wgs_of q)) gcj)))"

definition stop_wgs :: "json \<Rightarrow> error + json" where
  "stop_wgs st =
     bind_err (py_getitem st (str_of ''location'')) (\<lambda>loc.
     bind_err (parse_location loc) (\<lambda>xy.
     Inr (coord_json (wgs_of xy))))"

section \<open>Verified properties\<close>

subsection \<open>The coordinate transformer\<close>

lemma cos_radlat_pos:
  assumes "0.8293 \<le> lat" "lat \<le> 55.8271"
  shows "0 < cos (lat / 180.0 * pi)"
proof -
  have "0 < lat / 180.0 * pi" using assms pi_gt_zero by simp
  moreover have "lat / 180.0 * pi < pi / 2"
  proof -
    have "lat / 180 < 1 / 2" using assms by simp
    then have "lat / 180 * pi < 1 / 2 * pi" using pi_gt_zero by (simp only: mult_strict_right_mono)
    then show ?thesis by simp
  qed
  ultimately show ?thesis by (intro cos_gt_zero_pi) linarith+
qed

lemma magic_pos: "0 < 1 - gcj_ee * sin r * sin r"
proof -
  have "sin r * sin r \<le> 1" using sin_squared_eq[of r] zero_le_power2[of "cos r"] by (simp add: power2_eq_square)
  moreover have "0 \<le> sin r * sin r" by simp
  moreover have "0 < gcj_ee" "gcj_ee < 1" by (simp_all add: gcj_ee_def)
  ultimately have "gcj_ee * (sin r * sin r) < 1"
    by (smt (verit) mult_le_one le_less_trans less_le_trans mult_left_le)
  then show ?thesis by (simp add: mult.assoc)
qed

lemma gcj2wgs_returns: "\<exists>r. gcj2wgs lon lat = Inr r"
proof (cases "out_of_china lon lat")
  case True
  then show ?thesis by (simp add: gcj2wgs_def)
next
  case False
  then have lat: "0.8293 \<le> lat" "lat \<le> 55.8271" by (auto simp: out_of_china_def)
  have c: "cos (lat / 180 * pi) \<noteq> 0" using cos_radlat_pos[OF lat] by simp
  have m: "0 < 1 - gcj_ee * sin (lat / 180 * pi) * sin (lat / 180 * pi)" by (rule magic_pos)
  have a: "gcj_a \<noteq> 0" "gcj_ee \<noteq> 1" by (simp_all add: gcj_a_def gcj_ee_def)
  from m have s: "sqrt (1 - gcj_ee * sin (lat / 180 * pi) * sin (lat / 180 * pi)) \<noteq> 0" by simp
  from m have m0: "1 - gcj_ee * sin (lat / 180 * pi) * sin (lat / 180 * pi) \<noteq> 0" by simp
  show ?thesis using False c m m0 s a
    by (simp add: gcj2wgs_def Let_def bind_err_def py_sqrt_def py_div_def)
qed

text \<open>
  C3. A point outside the envelope (longitude outside [72.004, 137.8347] or latitude outside
  [0.8293, 55.8271]) is returned by the transformer exactly as given.
\<close>

theorem gcj2wgs_outside_unchanged:
  "lon < 72.004 \<or> 137.8347 < lon \<or> lat < 0.8293 \<or> 55.8271 < lat \<Longrightarrow>
   gcj2wgs lon lat = Inr (lon, lat)"
  by (auto simp: gcj2wgs_def out_of_china_def)

theorem gcj2wgs_outside_unchanged_witness:
  "(137.8347 :: real) < 150 \<and> gcj2wgs 150 30 = Inr (150, 30)"
  using gcj2wgs_outside_unchanged [of 150 30] by simp

text \<open>
  C9. The transformer returns a result for every pair: neither a division nor the square
  root raises. In the correction branch the latitude lies in [0.8293, 55.8271], the cosine
  of the latitude in radians is not zero and the quantity under the square root is
  positive.
\<close>

theorem gcj2wgs_total:
  "(\<exists>r. gcj2wgs lon lat = Inr r) \<and>
   (\<not> out_of_china lon lat \<longrightarrow>
      0.8293 \<le> lat \<and> lat \<le> 55.8271
      \<and> cos (lat / 180.0 * pi) \<noteq> 0
      \<and> 0 < 1 - gcj_ee * sin (lat / 180.0 * pi) * sin (lat / 180.0 * pi))"
proof (intro conjI impI)
  show "\<exists>r. gcj2wgs lon lat = Inr r" by (rule gcj2wgs_returns)
next
  assume "\<not> out_of_china lon lat"
  then have lat: "0.8293 \<le> lat" "lat \<le> 55.8271" by (auto simp: out_of_china_def)
  from lat show "0.8293 \<le> lat" "lat \<le> 55.8271" by simp_all
  show "cos (lat / 180.0 * pi) \<noteq> 0" using cos_radlat_pos[OF lat] by simp
  show "0 < 1 - gcj_ee * sin (lat / 180.0 * pi) * sin (lat / 180.0 * pi)" by (rule magic_pos)
qed

theorem gcj2wgs_total_witness:
  "\<not> out_of_china 120.7 28 \<and> (\<exists>r. gcj2wgs 120.7 28 = Inr r)
   \<and> cos (28 / 180.0 * pi) \<noteq> 0
   \<and> 0 < 1 - gcj_ee * sin (28 / 180.0 * pi) * sin (28 / 180.0 * pi)"
  using gcj2wgs_total [of "120.7" 28] by (simp add: out_of_china_def)



subsection \<open>Output file names\<close>

lemma replace_scan_single:
  "replace_scan [a] [b] s = map (\<lambda>c. if c = a then b else c) s"
  by (induction s) (simp_all add: py_startswith_def)

lemma py_replace_single:
  "py_replace s [a] [b] = map (\<lambda>c. if c = a then b else c) s"
  by (simp add: py_replace_def replace_scan_single)

lemma py_endswith_single:
  "py_endswith s [c] \<longleftrightarrow> s \<noteq> [] \<and> last s = c"
proof (cases s rule: rev_cases)
  case Nil
  then show ?thesis by (simp add: py_endswith_def)
next
  case (snoc ys y)
  then show ?thesis by (auto simp: py_endswith_def)
qed

lemma replace_parens:
  "py_replace (py_replace xs [65288] (str_of ''('')) [65289] (str_of '')'') = map norm_paren xs"
proof -
  have "(\<lambda>c. if c = 65289 then 41 else c) \<circ> (\<lambda>c. if c = 65288 then 40 else c) = norm_paren"
    by (auto simp: fun_eq_iff norm_paren_def)
  then show ?thesis
    by (simp add: py_replace_single str_of_def)
qed

lemma base_name_refines: "base_name kw = base_name_spec kw"
  unfolding base_name_def base_name_spec_def replace_parens
  by (simp add: py_endswith_single Let_def butlast_conv_take)

text \<open>
  C8. The base name of a keyword is the keyword trimmed, with the full-width parentheses
  replaced by ASCII ones and one trailing U+8DEF removed; the keyword "24" followed by
  U+8DEF gives the base name "24" and the files route_24.geojson and stop_24.geojson.
\<close>

theorem base_name_as_specified:
  "base_name kw = base_name_spec kw
   \<and> base_name (str_of ''24'' @ [LU]) = str_of ''24''
   \<and> route_path (base_name (str_of ''24'' @ [LU])) = str_of ''route_24.geojson''
   \<and> stops_path (base_name (str_of ''24'' @ [LU])) = str_of ''stop_24.geojson''"
proof -
  have e: "base_name (str_of ''24'' @ [LU]) = str_of ''24''"
    unfolding base_name_refines base_name_spec_def
    by (simp add: norm_paren_def py_strip_def py_isspace_def str_of_def LU_def)
  have r: "route_path (base_name (str_of ''24'' @ [LU])) = str_of ''route_24.geojson''"
    unfolding e by (simp add: route_path_def str_of_def)
  have s: "stops_path (base_name (str_of ''24'' @ [LU])) = str_of ''stop_24.geojson''"
    unfolding e by (simp add: stops_path_def str_of_def)
  from base_name_refines [of kw] e r s show ?thesis by blast
qed

subsection \<open>The route selector\<close>

lemma cand_key_obj: "cand_key (JObj kv) = Inr (id_key kv)"
  by (simp add: cand_key_def id_key_def field_or_def)

lemma min_scan_obj:
  "\<exists>i<Suc (length cs).
      min_scan (JObj b) (id_key b) (map JObj cs) = Inr (JObj ((b # cs) ! i))
      \<and> id_key ((b # cs) ! i) \<le> id_key b
      \<and> (\<forall>j<length cs. id_key ((b # cs) ! i) \<le> id_key (cs ! j))
      \<and> (i = 0 \<or> id_key ((b # cs) ! i) < id_key b)
      \<and> (\<forall>j<i. 0 < j \<longrightarrow> id_key ((b # cs) ! i) < id_key ((b # cs) ! j))"
proof (induction cs arbitrary: b)
  case Nil
  then show ?case by simp
next
  case (Cons c cs)
  show ?case
  proof (cases "id_key c < id_key b")
    case True
    from Cons.IH[of c] obtain i where i: "i < Suc (length cs)"
      "min_scan (JObj c) (id_key c) (map JObj cs) = Inr (JObj ((c # cs) ! i))"
      "id_key ((c # cs) ! i) \<le> id_key c"
      "\<forall>j<length cs. id_key ((c # cs) ! i) \<le> id_key (cs ! j)"
      "i = 0 \<or> id_key ((c # cs) ! i) < id_key c"
      "\<forall>j<i. 0 < j \<longrightarrow> id_key ((c # cs) ! i) < id_key ((c # cs) ! j)"
      by blast
    have "\<forall>j<length (c # cs). id_key ((c # cs) ! i) \<le> id_key ((c # cs) ! j)"
      using i(3,4) by (auto simp: nth_Cons split: nat.splits)
    moreover have "\<forall>j<Suc i. 0 < j \<longrightarrow> id_key ((c # cs) ! i) < id_key ((b # c # cs) ! j)"
    proof (intro allI impI)
      fix j assume j: "j < Suc i" "0 < j"
      then obtain k where k: "j = Suc k" by (cases j) auto
      show "id_key ((c # cs) ! i) < id_key ((b # c # cs) ! j)"
      proof (cases k)
        case 0
        with k j i(5) show ?thesis by auto
      next
        case (Suc m)
        with k j i(6) show ?thesis by auto
      qed
    qed
    ultimately show ?thesis
      using True i(1,2,3) by (intro exI[of _ "Suc i"]) (auto simp: cand_key_obj)
  next
    case False
    from Cons.IH[of b] obtain i where i: "i < Suc (length cs)"
      "min_scan (JObj b) (id_key b) (map JObj cs) = Inr (JObj ((b # cs) ! i))"
      "id_key ((b # cs) ! i) \<le> id_key b"
      "\<forall>j<length cs. id_key ((b # cs) ! i) \<le> id_key (cs ! j)"
      "i = 0 \<or> id_key ((b # cs) ! i) < id_key b"
      "\<forall>j<i. 0 < j \<longrightarrow> id_key ((b # cs) ! i) < id_key ((b # cs) ! j)"
      by blast
    show ?thesis
    proof (cases i)
      case 0
      with i False show ?thesis
        by (intro exI[of _ 0]) (auto simp: cand_key_obj nth_Cons split: nat.splits)
    next
      case (Suc k)
      have lt: "id_key (cs ! k) < id_key b" using i(5) Suc by simp
      have "\<forall>j<length (c # cs). id_key (cs ! k) \<le> id_key ((c # cs) ! j)"
        using i(4) Suc lt False by (auto simp: nth_Cons split: nat.splits)
      moreover have "\<forall>j<Suc (Suc k). 0 < j \<longrightarrow> id_key (cs ! k) < id_key ((b # c # cs) ! j)"
      proof (intro allI impI)
        fix j assume j: "j < Suc (Suc k)" "0 < j"
        then obtain m where m: "j = Suc m" by (cases j) auto
        show "id_key (cs ! k) < id_key ((b # c # cs) ! j)"
        proof (cases m)
          case 0
          with m lt False show ?thesis by auto
        next
          case (Suc n)
          with m j i(6) \<open>i = Suc k\<close> show ?thesis by auto
        qed
      qed
      ultimately show ?thesis
        using False i(1,2) Suc lt
        by (intro exI[of _ "Suc (Suc k)"]) (auto simp: cand_key_obj)
    qed
  qed
qed

lemma pick_first_minimum:
  assumes "cs \<noteq> []"
  shows "\<exists>i<length cs.
           pick_best_busline (JArr (map JObj cs)) = Inr (Some (JObj (cs ! i)))
           \<and> (\<forall>j<length cs. id_key (cs ! i) \<le> id_key (cs ! j))
           \<and> (\<forall>j<i. id_key (cs ! i) < id_key (cs ! j))"
proof -
  from assms obtain b rest where cs: "cs = b # rest" by (cases cs) auto
  from min_scan_obj[of rest b] obtain i where i: "i < Suc (length rest)"
      "min_scan (JObj b) (id_key b) (map JObj rest) = Inr (JObj ((b # rest) ! i))"
      "id_key ((b # rest) ! i) \<le> id_key b"
      "\<forall>j<length rest. id_key ((b # rest) ! i) \<le> id_key (rest ! j)"
      "i = 0 \<or> id_key ((b # rest) ! i) < id_key b"
      "\<forall>j<i. 0 < j \<longrightarrow> id_key ((b # rest) ! i) < id_key ((b # rest) ! j)"
    by blast
  have p: "pick_best_busline (JArr (map JObj cs)) = Inr (Some (JObj (cs ! i)))"
    using i(2) cs by (simp add: pick_best_busline_def py_min_key_def cand_key_obj)
  have a: "\<forall>j<length cs. id_key (cs ! i) \<le> id_key (cs ! j)"
    using i(3,4) cs by (auto simp: nth_Cons split: nat.splits)
  have b: "\<forall>j<i. id_key (cs ! i) < id_key (cs ! j)"
  proof (intro allI impI)
    fix j assume j: "j < i"
    show "id_key (cs ! i) < id_key (cs ! j)"
    proof (cases j)
      case 0
      with j i(5) cs show ?thesis by auto
    next
      case (Suc k)
      with j i(6) cs show ?thesis by auto
    qed
  qed
  from i(1) cs p a b show ?thesis by auto
qed

text \<open>
  C10. On a non-empty list of candidates the selector returns the first candidate, in the
  order of the list, whose key is the smallest: no candidate has a smaller key and every
  earlier candidate has a larger one. A candidate without an id has the key of a candidate
  whose id is not numeric, the sentinel.
\<close>

theorem pick_best_busline_first_of_ties:
  "(cs \<noteq> [] \<longrightarrow>
      (\<exists>i<length cs.
         pick_best_busline (JArr (map JObj cs)) = Inr (Some (JObj (cs ! i)))
         \<and> (\<forall>j<length cs. id_key (cs ! i) \<le> id_key (cs ! j))
         \<and> (\<forall>j<i. id_key (cs ! i) < id_key (cs ! j))))
   \<and> (map_of kv (str_of ''id'') = None \<longrightarrow> id_key kv = 10 ^ 18)
   \<and> (map_of kv (str_of ''id'') = Some v \<and> py_int v = None \<longrightarrow> id_key kv = 10 ^ 18)"
  using pick_first_minimum[of cs]
  by (auto simp: id_key_def field_or_def idnum_def py_int_str_def py_strip_def)


theorem pick_best_busline_first_of_ties_witness:
  "ties_example \<noteq> []
   \<and> (\<exists>i<length ties_example.
         pick_best_busline (JArr (map JObj ties_example)) = Inr (Some (JObj (ties_example ! i)))
         \<and> (\<forall>j<length ties_example. id_key (ties_example ! i) \<le> id_key (ties_example ! j))
         \<and> (\<forall>j<i. id_key (ties_example ! i) < id_key (ties_example ! j)))
   \<and> map_of ([] :: (ustr \<times> json) list) (str_of ''id'') = None
   \<and> id_key [] = 10 ^ 18
   \<and> map_of [(str_of ''id'', JStr (str_of ''B1''))] (str_of ''id'') = Some (JStr (str_of ''B1''))
   \<and> py_int (JStr (str_of ''B1'')) = None
   \<and> id_key [(str_of ''id'', JStr (str_of ''B1''))] = 10 ^ 18"
proof -
  have ne: "ties_example \<noteq> []"
    by (simp add: ties_example_def)
  have n: "py_int (JStr (str_of ''B1'')) = None"
    by (simp add: py_int_str_def py_strip_def py_isspace_def unsigned_int_def digitpart_def
        is_digit_def str_of_def)
  have a: "\<exists>i<length ties_example.
         pick_best_busline (JArr (map JObj ties_example)) = Inr (Some (JObj (ties_example ! i)))
         \<and> (\<forall>j<length ties_example. id_key (ties_example ! i) \<le> id_key (ties_example ! j))
         \<and> (\<forall>j<i. id_key (ties_example ! i) < id_key (ties_example ! j))"
    using ne pick_best_busline_first_of_ties [of ties_example "[]" JNull] by blast
  have b: "id_key [] = 10 ^ 18"
    using pick_best_busline_first_of_ties [of "[]" "[]" JNull] by simp
  have c: "id_key [(str_of ''id'', JStr (str_of ''B1''))] = 10 ^ 18"
    using n pick_best_busline_first_of_ties
      [of "[]" "[(str_of ''id'', JStr (str_of ''B1''))]" "JStr (str_of ''B1'')"]
    by simp
  from ne a b c n show ?thesis by simp
qed

lemma pick_best_busline_examples:
  "pick_best_busline (JArr []) = Inr None"
  "pick_best_busline
     (JArr [JObj [(str_of ''id'', JStr (str_of ''1023''))],
            JObj [(str_of ''id'', JStr (str_of ''88''))]])
   = Inr (Some (JObj [(str_of ''id'', JStr (str_of ''88''))]))"
  by (simp_all add: pick_best_busline_def py_min_key_def cand_key_def idnum_def py_int_str_def
      py_strip_def py_isspace_def unsigned_int_def digitpart_def is_digit_def str_of_def)

text \<open>
  C2. The code at the candidates with the ids "abc" and "2000000000000000000": the second
  id is numeric and larger than the sentinel, and the candidate with the id "abc" is
  selected, in either order of the list.
\<close>

theorem pick_best_busline_sentinel_beats_large_id:
  "py_int (JStr (str_of ''abc'')) = None
   \<and> py_int (JStr (str_of ''2000000000000000000'')) = Some 2000000000000000000
   \<and> pick_best_busline
        (JArr [JObj [(str_of ''id'', JStr (str_of ''abc''))],
               JObj [(str_of ''id'', JStr (str_of ''2000000000000000000''))]])
      = Inr (Some (JObj [(str_of ''id'', JStr (str_of ''abc''))]))
   \<and> pick_best_busline
        (JArr [JObj [(str_of ''id'', JStr (str_of ''2000000000000000000''))],
               JObj [(str_of ''id'', JStr (str_of ''abc''))]])
      = Inr (Some (JObj [(str_of ''id'', JStr (str_of ''abc''))]))"
  by (simp add: pick_best_busline_def py_min_key_def cand_key_def idnum_def py_int_str_def
      py_strip_def py_isspace_def unsigned_int_def digitpart_def is_digit_def str_of_def)


subsection \<open>The polyline\<close>

lemma py_split_no_sep: "sep \<notin> set a \<Longrightarrow> py_split a sep = [a]"
  by (induction a) auto

lemma py_split_append:
  "sep \<notin> set a \<Longrightarrow> py_split (a @ sep # rest) sep = a # py_split rest sep"
  by (induction a) auto

lemma py_strip_clean:
  assumes "s \<noteq> []" "\<not> py_isspace (hd s)" "\<not> py_isspace (last s)"
  shows "py_strip s = s"
proof -
  have 1: "dropWhile py_isspace s = s" using assms(1,2) by (cases s) auto
  have "rev s \<noteq> []" "\<not> py_isspace (hd (rev s))" using assms(1,3) by (simp_all add: hd_rev)
  then have 2: "dropWhile py_isspace (rev s) = rev s" by (cases "rev s") auto
  show ?thesis by (simp add: py_strip_def 1 2)
qed

lemma number_str_nonempty: "number_str a x \<Longrightarrow> a \<noteq> []"
  by (auto simp: number_str_def py_float_def py_strip_def)

lemma parse_pair_str:
  assumes "pair_of p xy"
  shows "py_strip (pair_str p) = pair_str p" "pair_str p \<noteq> []"
    "parse_pair (pair_str p) = Inr xy" "59 \<notin> set (pair_str p)"
proof -
  obtain a b where p: "p = (a, b)" by (cases p)
  obtain x y where xy: "xy = (x, y)" by (cases xy)
  from assms p xy have a: "number_str a x" and b: "number_str b y" by (simp_all add: pair_of_def)
  from a b have ne: "a \<noteq> []" "b \<noteq> []" by (auto dest: number_str_nonempty)
  from a ne have ha: "\<not> py_isspace (hd a)" by (auto simp: number_str_def)
  from b ne have lb: "\<not> py_isspace (last b)" by (auto simp: number_str_def)
  show "pair_str p \<noteq> []" by (simp add: pair_str_def)
  show "py_strip (pair_str p) = pair_str p"
    using ne ha lb p by (intro py_strip_clean) (simp_all add: pair_str_def)
  from a b show "59 \<notin> set (pair_str p)" by (auto simp: pair_str_def number_str_def p)
  from a b have na: "44 \<notin> set a" and nb: "44 \<notin> set b" by (auto simp: number_str_def)
  have "py_split (a @ 44 # b) 44 = [a, b]"
    by (simp add: py_split_append[OF na] py_split_no_sep[OF nb])
  then show "parse_pair (pair_str p) = Inr xy"
    using a b by (simp add: parse_pair_def pair_str_def p xy number_str_def)
qed

lemma parse_segs_pairs:
  "list_all2 pair_of strs pts \<Longrightarrow> parse_segs acc (map pair_str strs) = Inr (acc @ pts)"
proof (induction strs pts arbitrary: acc rule: list_all2_induct)
  case Nil
  then show ?case by simp
next
  case (Cons p ps xy pts)
  from parse_pair_str[OF Cons.hyps(1)] Cons.IH[of "acc @ [xy]"]
  show ?case by (simp add: Let_def)
qed

lemma py_split_polyline:
  "list_all2 pair_of strs pts \<Longrightarrow> strs \<noteq> [] \<Longrightarrow>
   py_split (polyline_of strs) 59 = map pair_str strs"
proof (induction strs pts rule: list_all2_induct)
  case Nil
  then show ?case by simp
next
  case (Cons p ps xy pts)
  show ?case
  proof (cases ps)
    case Nil
    with parse_pair_str(4)[OF Cons.hyps(1)] show ?thesis by (simp add: py_split_no_sep)
  next
    case (Cons q qs)
    with parse_pair_str(4)[OF Cons.hyps(1)] Cons.IH show ?thesis
      by (simp add: py_split_append)
  qed
qed

lemma parse_polyline_of:
  assumes "list_all2 pair_of strs pts"
  shows "parse_polyline (JStr (polyline_of strs)) = Inr pts"
proof (cases strs)
  case Nil
  with assms show ?thesis by (simp add: py_strip_def)
next
  case (Cons p ps)
  with assms py_split_polyline[OF assms] parse_segs_pairs[OF assms, of "[]"]
  show ?thesis by simp
qed

lemma map_err_total:
  assumes "\<And>x. \<exists>y. f x = Inr y"
  shows "\<exists>ys. map_err f xs = Inr ys \<and> length ys = length xs
              \<and> (\<forall>i<length xs. f (xs ! i) = Inr (ys ! i))"
proof (induction xs)
  case Nil
  then show ?case by simp
next
  case (Cons x xs)
  from assms obtain y where y: "f x = Inr y" by blast
  from Cons obtain ys where ys: "map_err f xs = Inr ys" "length ys = length xs"
    "\<forall>i<length xs. f (xs ! i) = Inr (ys ! i)" by blast
  show ?case using y ys
    by (intro exI[of _ "y # ys"]) (auto simp: nth_Cons split: nat.splits)
qed


lemma geometry_coordinates_line:
  "geometry_coordinates (feature_line wgs props) = JArr (map coord_json wgs)"
  by (simp add: geometry_coordinates_def feature_line_def field_def field_or_def str_of_def)

text \<open>
  C6. A polyline string of N well-formed pairs parses to the N pairs of numbers in the
  order of the string, and the route feature built from it has the N transformed pairs as
  its coordinate list, in the same order: the transformation returns for every point, so
  it keeps count and order.
\<close>

theorem polyline_round_trip:
  assumes "list_all2 pair_of strs pts"
  shows "parse_polyline (JStr (polyline_of strs)) = Inr pts
     \<and> length pts = length strs
     \<and> (\<exists>wgs. map_err (\<lambda>p. gcj2wgs (fst p) (snd p)) pts = Inr wgs
           \<and> length wgs = length strs
           \<and> (\<forall>i<length strs.
                 py_float (fst (strs ! i)) = Some (fst (pts ! i))
                 \<and> py_float (snd (strs ! i)) = Some (snd (pts ! i))
                 \<and> gcj2wgs (fst (pts ! i)) (snd (pts ! i)) = Inr (wgs ! i))
           \<and> (\<forall>lkv f sf.
                 field_or lkv (str_of ''polyline'') (JStr []) = JStr (polyline_of strs)
                 \<and> build_features (JObj lkv) = Inr (f, sf)
                 \<longrightarrow> geometry_coordinates f = JArr (map coord_json wgs)))"
proof -
  have p: "parse_polyline (JStr (polyline_of strs)) = Inr pts"
    using assms by (rule parse_polyline_of)
  have l: "length pts = length strs"
    using assms by (simp add: list_all2_lengthD)
  have "\<And>p. \<exists>r. gcj2wgs (fst p) (snd p) = Inr r"
    by (rule gcj2wgs_returns)
  from map_err_total[of "\<lambda>p. gcj2wgs (fst p) (snd p)" pts, OF this]
  obtain wgs where w: "map_err (\<lambda>p. gcj2wgs (fst p) (snd p)) pts = Inr wgs"
    "length wgs = length pts"
    "\<forall>i<length pts. gcj2wgs (fst (pts ! i)) (snd (pts ! i)) = Inr (wgs ! i)"
    by blast
  have n: "\<forall>i<length strs. py_float (fst (strs ! i)) = Some (fst (pts ! i))
                 \<and> py_float (snd (strs ! i)) = Some (snd (pts ! i))"
    using assms by (auto simp: list_all2_conv_all_nth pair_of_def number_str_def)
  have b: "\<forall>lkv f sf.
             field_or lkv (str_of ''polyline'') (JStr []) = JStr (polyline_of strs)
             \<and> build_features (JObj lkv) = Inr (f, sf)
             \<longrightarrow> geometry_coordinates f = JArr (map coord_json wgs)"
  proof -
    from p have p': "parse_segs [] (py_split (polyline_of strs) 59) = Inr pts" by simp
    show ?thesis
      by (auto simp: p' w(1) bind_err_def geometry_coordinates_line split: sum.splits)
  qed
  from p l w n b show ?thesis by auto
qed

theorem polyline_round_trip_witness:
  "list_all2 pair_of polyline_example [(120.5, 150), (- 3, 28.25)]
   \<and> polyline_of polyline_example = str_of ''120.5,150;-3,28.25''
   \<and> parse_polyline (JStr (polyline_of polyline_example)) = Inr [(120.5, 150), (- 3, 28.25)]
   \<and> field_or [(str_of ''polyline'', JStr (polyline_of polyline_example))]
        (str_of ''polyline'') (JStr []) = JStr (polyline_of polyline_example)
   \<and> build_features (JObj [(str_of ''polyline'', JStr (polyline_of polyline_example))])
      = Inr (feature_line [(120.5, 150), (- 3, 28.25)]
               (route_props [(str_of ''polyline'', JStr (polyline_of polyline_example))]), [])"
proof -
  have f: "py_float (str_of ''120.5'') = Some 120.5" "py_float (str_of ''150'') = Some 150"
    "py_float (str_of ''-3'') = Some (- 3)" "py_float (str_of ''28.25'') = Some 28.25"
    by (simp_all add: py_float_def py_strip_def py_isspace_def unsigned_float_def
        split_first_def mantissa_def digitpart_def is_digit_def str_of_def)
  have h: "list_all2 pair_of polyline_example [(120.5, 150), (- 3, 28.25)]"
    by (simp add: polyline_example_def pair_of_def number_str_def f)
       (simp add: str_of_def py_isspace_def)
  have s: "polyline_of polyline_example = str_of ''120.5,150;-3,28.25''"
    by (simp add: polyline_example_def pair_str_def str_of_def)
  from polyline_round_trip [OF h]
  have p: "parse_polyline (JStr (polyline_of polyline_example)) = Inr [(120.5, 150), (- 3, 28.25)]"
    by blast
  have b: "build_features (JObj [(str_of ''polyline'', JStr (polyline_of polyline_example))])
      = Inr (feature_line [(120.5, 150), (- 3, 28.25)]
               (route_props [(str_of ''polyline'', JStr (polyline_of polyline_example))]), [])"
  proof -
    from p have p': "parse_segs [] (py_split (polyline_of polyline_example) 59)
                     = Inr [(120.5, 150), (- 3, 28.25)]" by simp
    show ?thesis
      by (simp add: field_or_def p' gcj2wgs_def out_of_china_def bind_err_def str_of_def)
  qed
  from h s p b show ?thesis by (simp add: field_or_def)
qed

subsection \<open>Outputs that exist\<close>

lemmas string_eval = str_of_def py_strip_def py_isspace_def py_startswith_def py_endswith_def
  py_replace_def is_digit_def digitpart_def unsigned_int_def py_int_str_def
  split_first_def mantissa_def exponent_def pow10_def unsigned_float_def py_float_def LU_def

lemmas step_eval = run_def init_state_def keyword_step_def fetch_keyword_def fetch_detail_def
  write_outputs_def write_text_def add_log_def add_call_def
  route_path_def stops_path_def base_name_def field_def field_or_def bind_err_def
  pick_best_busline_def py_min_key_def cand_key_def idnum_def stop_feature_def parse_pair_def
  final_state_def raised_def Let_def
  parent_of_def is_surrogate_def to_fc_def feature_line_def feature_point_def route_props_def
  coord_json_def

lemmas run_eval = step_eval gcj2wgs_def out_of_china_def

lemmas demo_eval = demo_env_def demo_linename_def demo_lineid_def ok_response_def ok_fields_def
  failed_response_def failed_fields_def demo_line_def demo_city_def kw24_def kw0_def kw9_def kw5_def kw7_def
  kwB1_def inside_line_def kwS_def kw_slash_def surrogate_line_def

lemma demo_names:
  "py_strip kw24 = kw24" "py_strip kw0 = kw0" "py_strip kw9 = kw9" "py_strip kw5 = kw5"
  "py_strip kw7 = kw7"
  "base_name kw24 = str_of ''24''" "base_name kw0 = str_of ''0''"
  "base_name kw9 = str_of ''9''" "base_name kw5 = str_of ''5''" "base_name kw7 = str_of ''7''"
  by (simp_all add: demo_eval string_eval base_name_def)

lemma demo_after_files:
  "files demo_after (route_path (str_of ''24'')) \<noteq> None"
  "files demo_after (stops_path (str_of ''24'')) \<noteq> None"
  by (simp_all add: demo_after_def demo_eval run_eval string_eval)


lemma add_log_simps [simp]:
  "files (add_log l s) = files s" "calls (add_log l s) = calls s"
  "logs (add_log l s) = logs s @ [l]"
  "all_route_feats (add_log l s) = all_route_feats s"
  "all_stop_feats (add_log l s) = all_stop_feats s"
  by (simp_all add: add_log_def)

lemma add_call_simps [simp]:
  "files (add_call c s) = files s" "calls (add_call c s) = calls s @ [c]"
  "logs (add_call c s) = logs s"
  "all_route_feats (add_call c s) = all_route_feats s"
  "all_stop_feats (add_call c s) = all_stop_feats s"
  by (simp_all add: add_call_def)

lemma load_existing_frame:
  "files (load_existing rp sp s) = files s" "calls (load_existing rp sp s) = calls s"
  by (simp_all add: load_existing_def Let_def split: sum.splits)

lemma load_existing_logs:
  "logs (load_existing rp sp s) = logs s
   \<or> (\<exists>e. logs (load_existing rp sp s) = logs s @ [Warn_load e])"
  by (simp add: load_existing_def Let_def split: sum.splits)

lemma skip_step:
  assumes "\<not> overwrite" "py_strip kw \<noteq> []"
    "files s (route_path (base_name (py_strip kw))) \<noteq> None"
    "files s (stops_path (base_name (py_strip kw))) \<noteq> None"
  shows "keyword_step ev city overwrite s kw =
           Inr (load_existing (route_path (base_name (py_strip kw)))
                  (stops_path (base_name (py_strip kw)))
                  (add_log (Skip_exists (route_path (base_name (py_strip kw)))
                                        (stops_path (base_name (py_strip kw)))) s))"
  using assms by (simp add: keyword_step_def Let_def)

lemma blank_step: "py_strip kw = [] \<Longrightarrow> keyword_step ev city overwrite s kw = Inr s"
  by (simp add: keyword_step_def)

lemma skip_run:
  assumes "\<not> overwrite"
  shows "\<forall>kw\<in>set kws. py_strip kw \<noteq> [] \<longrightarrow>
            fs (route_path (base_name (py_strip kw))) \<noteq> None
            \<and> fs (stops_path (base_name (py_strip kw))) \<noteq> None \<Longrightarrow>
         files s = fs \<Longrightarrow>
         \<exists>s'. run_keywords ev city overwrite s kws = Inr s' \<and> files s' = fs
               \<and> calls s' = calls s"
proof (induction kws arbitrary: s)
  case Nil
  then show ?case by simp
next
  case (Cons kw kws)
  show ?case
  proof (cases "py_strip kw = []")
    case True
    with Cons show ?thesis by (simp add: blank_step)
  next
    case False
    let ?t = "load_existing (route_path (base_name (py_strip kw)))
                (stops_path (base_name (py_strip kw)))
                (add_log (Skip_exists (route_path (base_name (py_strip kw)))
                                      (stops_path (base_name (py_strip kw)))) s)"
    from False Cons.prems have st: "keyword_step ev city overwrite s kw = Inr ?t"
      using assms by (intro skip_step) auto
    have ft: "files ?t = fs" "calls ?t = calls s"
      using Cons.prems(2) by (simp_all add: load_existing_frame)
    from Cons.IH[of ?t] Cons.prems(1) ft
    obtain s' where "run_keywords ev city overwrite ?t kws = Inr s'" "files s' = fs"
      "calls s' = calls ?t" by auto
    with st ft show ?thesis by simp
  qed
qed

text \<open>
  C5. Without overwrite, a keyword whose two output files exist is not fetched and
  nothing is written for it: the step only loads the two files into the accumulation,
  printing the skip line and at most one warning, and goes on. A run over keywords that
  all have their files returns with every file as it was and without any request, so a
  second run leaves the outputs of the first unchanged.
\<close>

theorem existing_outputs_are_kept:
  assumes "\<not> overwrite"
    and "\<forall>kw\<in>set kws. py_strip kw \<noteq> [] \<longrightarrow>
            files s (route_path (base_name (py_strip kw))) \<noteq> None
            \<and> files s (stops_path (base_name (py_strip kw))) \<noteq> None"
  shows "(\<exists>s'. run_keywords ev city overwrite s kws = Inr s' \<and> files s' = files s
               \<and> calls s' = calls s)
     \<and> (\<forall>kw t. kw \<in> set kws \<and> py_strip kw \<noteq> [] \<and> files t = files s \<longrightarrow>
           (\<exists>t'. keyword_step ev city overwrite t kw = Inr t'
              \<and> t' = load_existing (route_path (base_name (py_strip kw)))
                       (stops_path (base_name (py_strip kw)))
                       (add_log (Skip_exists (route_path (base_name (py_strip kw)))
                                             (stops_path (base_name (py_strip kw)))) t)
              \<and> files t' = files t \<and> calls t' = calls t
              \<and> (\<exists>w. logs t' = logs t @ Skip_exists (route_path (base_name (py_strip kw)))
                                                    (stops_path (base_name (py_strip kw))) # w
                      \<and> (w = [] \<or> (\<exists>e. w = [Warn_load e])))))"
proof (intro conjI allI impI)
  show "\<exists>s'. run_keywords ev city overwrite s kws = Inr s' \<and> files s' = files s
               \<and> calls s' = calls s"
    using skip_run[OF assms(1), of kws "files s" s ev city] assms(2) by simp
next
  fix kw and t :: state
  assume a: "kw \<in> set kws \<and> py_strip kw \<noteq> [] \<and> files t = files s"
  let ?rp = "route_path (base_name (py_strip kw))"
  let ?sp = "stops_path (base_name (py_strip kw))"
  let ?t' = "load_existing ?rp ?sp (add_log (Skip_exists ?rp ?sp) t)"
  from a assms have st: "keyword_step ev city overwrite t kw = Inr ?t'"
    by (intro skip_step) auto
  have fr: "files ?t' = files t" "calls ?t' = calls t"
    by (simp_all add: load_existing_frame)
  have lg: "\<exists>w. logs ?t' = logs t @ Skip_exists ?rp ?sp # w \<and> (w = [] \<or> (\<exists>e. w = [Warn_load e]))"
    using load_existing_logs[of ?rp ?sp "add_log (Skip_exists ?rp ?sp) t"] by auto
  from st fr lg
  show "\<exists>t'. keyword_step ev city overwrite t kw = Inr t'
              \<and> t' = ?t' \<and> files t' = files t \<and> calls t' = calls t
              \<and> (\<exists>w. logs t' = logs t @ Skip_exists ?rp ?sp # w
                      \<and> (w = [] \<or> (\<exists>e. w = [Warn_load e])))"
    by blast
qed


theorem existing_outputs_are_kept_witness:
  "\<not> False
   \<and> files (init_state (files demo_after)) (route_path (base_name (py_strip kw24))) \<noteq> None
   \<and> files (init_state (files demo_after)) (stops_path (base_name (py_strip kw24))) \<noteq> None
   \<and> py_strip kw24 \<noteq> []
   \<and> (\<exists>s'. run_keywords demo_env demo_city False (init_state (files demo_after)) [kw24] = Inr s'
          \<and> files s' = files demo_after \<and> calls s' = [])"
proof -
  have h: "\<forall>kw\<in>set [kw24]. py_strip kw \<noteq> [] \<longrightarrow>
          files (init_state (files demo_after)) (route_path (base_name (py_strip kw))) \<noteq> None
          \<and> files (init_state (files demo_after)) (stops_path (base_name (py_strip kw))) \<noteq> None"
    by (simp add: demo_names demo_after_files init_state_def)
  have n: "py_strip kw24 \<noteq> []"
    by (simp add: demo_names) (simp add: kw24_def)
  have "\<not> False" by simp
  from existing_outputs_are_kept [OF this h, of demo_env demo_city]
  have "\<exists>s'. run_keywords demo_env demo_city False (init_state (files demo_after)) [kw24] = Inr s'
          \<and> files s' = files (init_state (files demo_after))
          \<and> calls s' = calls (init_state (files demo_after))"
    by blast
  moreover from h have "files (init_state (files demo_after))
                          (route_path (base_name (py_strip kw24))) \<noteq> None"
    "files (init_state (files demo_after)) (stops_path (base_name (py_strip kw24))) \<noteq> None"
    using n by simp_all
  ultimately show ?thesis using n by (simp add: init_state_def)
qed

subsection \<open>Failures while a keyword is fetched\<close>

lemma fetch_step:
  assumes "py_strip kw \<noteq> []"
    "overwrite \<or> files s (route_path (base_name (py_strip kw))) = None
               \<or> files s (stops_path (base_name (py_strip kw))) = None"
  shows "keyword_step ev city overwrite s kw =
           fetch_keyword ev city (py_strip kw) (route_path (base_name (py_strip kw)))
             (stops_path (base_name (py_strip kw))) s"
  using assms by (auto simp: keyword_step_def Let_def)

lemma search_failed:
  assumes "api_linename ev (calls s) city kw = Inr (JObj lkv)"
    "field lkv (str_of ''status'') \<noteq> JStr (str_of ''1'')"
  shows "fetch_keyword ev city kw rp sp s =
           Inr (add_log (Linename_failed (field lkv (str_of ''info'')))
                  (add_call (Linename city kw) (add_log (Querying kw) s)))"
  using assms by (simp add: fetch_keyword_def Let_def)

lemma no_candidates:
  assumes "api_linename ev (calls s) city kw = Inr (JObj lkv)"
    "field lkv (str_of ''status'') = JStr (str_of ''1'')"
    "\<not> truthy (field_or lkv (str_of ''buslines'') (JArr []))
     \<or> (\<exists>b. pick_best_busline (field_or lkv (str_of ''buslines'') (JArr [])) = Inr (Some b)
             \<and> \<not> truthy b)"
  shows "fetch_keyword ev city kw rp sp s =
           Inr (add_log No_candidate (add_call (Linename city kw) (add_log (Querying kw) s)))"
  using assms by (auto simp: fetch_keyword_def Let_def pick_best_busline_def)

lemma detail_failed:
  assumes "api_linename ev (calls s) city kw = Inr (JObj lkv)"
    "field lkv (str_of ''status'') = JStr (str_of ''1'')"
    "pick_best_busline (field_or lkv (str_of ''buslines'') (JArr [])) = Inr (Some (JObj bkv))"
    "bkv \<noteq> []"
    "api_lineid ev (calls s @ [Linename city kw]) city (field bkv (str_of ''id''))
       = Inr (JObj dkv)"
    "field dkv (str_of ''status'') \<noteq> JStr (str_of ''1'')
     \<or> \<not> truthy (field dkv (str_of ''buslines''))"
  shows "fetch_keyword ev city kw rp sp s =
           Inr (add_log (Lineid_failed (field dkv (str_of ''info'')))
                  (add_call (Lineid city (field bkv (str_of ''id'')))
                     (add_log (Picked (field bkv (str_of ''id'')) (field bkv (str_of ''name''))
                                (field bkv (str_of ''company'')))
                        (add_call (Linename city kw) (add_log (Querying kw) s)))))"
  using assms by (auto simp: fetch_keyword_def fetch_detail_def Let_def)

lemma skippedI:
  assumes "keyword_step ev city overwrite s kw = Inr s'"
    "files s' = files s" "all_route_feats s' = all_route_feats s"
    "all_stop_feats s' = all_stop_feats s"
    "logs s' = logs s @ ls @ [l]" "is_failure_log l"
  shows "skipped ev city overwrite s kw kws"
  using assms by (simp add: skipped_def)

text \<open>
  C7. When the search for a keyword answers with a status other than "1", or with no
  candidates, the keyword is skipped: the step prints the query line and one failure
  line, writes no file and adds nothing to the accumulations, and the loop goes on with
  the keywords that follow.
\<close>

theorem failed_search_skips_keyword:
  assumes "py_strip kw \<noteq> []"
    and "overwrite \<or> files s (route_path (base_name (py_strip kw))) = None
                   \<or> files s (stops_path (base_name (py_strip kw))) = None"
    and "api_linename ev (calls s) city (py_strip kw) = Inr (JObj lkv)"
    and "field lkv (str_of ''status'') \<noteq> JStr (str_of ''1'')
         \<or> \<not> truthy (field_or lkv (str_of ''buslines'') (JArr []))"
  shows "\<exists>s' l. keyword_step ev city overwrite s kw = Inr s'
           \<and> files s' = files s
           \<and> all_route_feats s' = all_route_feats s \<and> all_stop_feats s' = all_stop_feats s
           \<and> calls s' = calls s @ [Linename city (py_strip kw)]
           \<and> logs s' = logs s @ [Querying (py_strip kw), l]
           \<and> (l = Linename_failed (field lkv (str_of ''info'')) \<or> l = No_candidate)
           \<and> run_keywords ev city overwrite s (kw # kws) = run_keywords ev city overwrite s' kws"
proof (cases "field lkv (str_of ''status'') \<noteq> JStr (str_of ''1'')")
  case True
  let ?s' = "add_log (Linename_failed (field lkv (str_of ''info'')))
               (add_call (Linename city (py_strip kw)) (add_log (Querying (py_strip kw)) s))"
  have "keyword_step ev city overwrite s kw = Inr ?s'"
    using fetch_step[OF assms(1,2)] search_failed[OF assms(3) True] by simp
  then show ?thesis
    by (intro exI[of _ ?s'] exI[of _ "Linename_failed (field lkv (str_of ''info''))"]) simp
next
  case False
  with assms(4) have e: "\<not> truthy (field_or lkv (str_of ''buslines'') (JArr []))" by blast
  let ?s' = "add_log No_candidate
               (add_call (Linename city (py_strip kw)) (add_log (Querying (py_strip kw)) s))"
  have "fetch_keyword ev city (py_strip kw) (route_path (base_name (py_strip kw)))
             (stops_path (base_name (py_strip kw))) s = Inr ?s'"
    using False e by (intro no_candidates[OF assms(3)]) auto
  then have "keyword_step ev city overwrite s kw = Inr ?s'"
    using fetch_step[OF assms(1,2)] by simp
  then show ?thesis
    by (intro exI[of _ ?s'] exI[of _ No_candidate]) simp
qed


lemma demo_run_0_24:
  "files (final_state (run demo_env demo_city [kw0, kw24] Map.empty False))
     (route_path (str_of ''0'')) = None"
  "files (final_state (run demo_env demo_city [kw0, kw24] Map.empty False))
     (stops_path (str_of ''0'')) = None"
  "files (final_state (run demo_env demo_city [kw0, kw24] Map.empty False))
     (route_path (str_of ''24'')) \<noteq> None"
  "files (final_state (run demo_env demo_city [kw0, kw24] Map.empty False))
     (stops_path (str_of ''24'')) \<noteq> None"
  by (simp_all add: demo_eval run_eval string_eval)

theorem failed_search_skips_keyword_witness:
  "py_strip kw0 \<noteq> []
   \<and> files (init_state Map.empty) (route_path (base_name (py_strip kw0))) = None
   \<and> api_linename demo_env (calls (init_state Map.empty)) demo_city (py_strip kw0)
       = Inr (JObj failed_fields)
   \<and> field failed_fields (str_of ''status'') = JStr (str_of ''0'')
   \<and> (\<exists>s'. keyword_step demo_env demo_city False (init_state Map.empty) kw0 = Inr s'
          \<and> files s' = Map.empty
          \<and> run_keywords demo_env demo_city False (init_state Map.empty) [kw0, kw24]
              = run_keywords demo_env demo_city False s' [kw24])
   \<and> files (final_state (run demo_env demo_city [kw0, kw24] Map.empty False))
        (route_path (str_of ''0'')) = None
   \<and> files (final_state (run demo_env demo_city [kw0, kw24] Map.empty False))
        (stops_path (str_of ''0'')) = None
   \<and> files (final_state (run demo_env demo_city [kw0, kw24] Map.empty False))
        (route_path (str_of ''24'')) \<noteq> None"
proof -
  have 1: "py_strip kw0 \<noteq> []"
    by (simp add: demo_names) (simp add: kw0_def)
  have 2: "files (init_state Map.empty) (route_path (base_name (py_strip kw0))) = None"
    by (simp add: init_state_def)
  then have h2: "False \<or> files (init_state Map.empty) (route_path (base_name (py_strip kw0))) = None
       \<or> files (init_state Map.empty) (stops_path (base_name (py_strip kw0))) = None"
    by simp
  have 3: "api_linename demo_env (calls (init_state Map.empty)) demo_city (py_strip kw0)
       = Inr (JObj failed_fields)"
    by (simp add: demo_names) (simp add: demo_env_def demo_linename_def failed_response_def)
  have 4: "field failed_fields (str_of ''status'') = JStr (str_of ''0'')"
    by (simp add: failed_fields_def field_def field_or_def)
  then have h4: "field failed_fields (str_of ''status'') \<noteq> JStr (str_of ''1'')
       \<or> \<not> truthy (field_or failed_fields (str_of ''buslines'') (JArr []))"
    by (simp add: str_of_def)
  from failed_search_skips_keyword [OF 1 h2 3 h4, of "[kw24]"]
  have 5: "\<exists>s'. keyword_step demo_env demo_city False (init_state Map.empty) kw0 = Inr s'
          \<and> files s' = Map.empty
          \<and> run_keywords demo_env demo_city False (init_state Map.empty) [kw0, kw24]
              = run_keywords demo_env demo_city False s' [kw24]"
    by (auto simp: init_state_def)
  from 1 2 3 4 5 demo_run_0_24 show ?thesis by blast
qed

text \<open>
  C1, as the code has it. On the fetch path of a keyword, the failures that the responses
  report are logged and only that keyword is skipped: a search whose status is not "1"
  or that has no candidates, an empty selection, a detail query whose status is not
  "1" or that has no bus lines. An exception raised while the keyword is processed is
  not caught: it leaves the loop, and the keywords that follow are not processed.
\<close>

theorem keyword_failure_policy:
  assumes "py_strip kw \<noteq> []"
    and "overwrite \<or> files s (route_path (base_name (py_strip kw))) = None
                   \<or> files s (stops_path (base_name (py_strip kw))) = None"
  shows "(\<forall>e t. keyword_step ev city overwrite s kw = Inl (e, t) \<longrightarrow>
            run_keywords ev city overwrite s (kw # kws) = Inl (e, t))
     \<and> (\<forall>lkv. api_linename ev (calls s) city (py_strip kw) = Inr (JObj lkv)
            \<and> (field lkv (str_of ''status'') \<noteq> JStr (str_of ''1'')
                \<or> \<not> truthy (field_or lkv (str_of ''buslines'') (JArr [])))
            \<longrightarrow> skipped ev city overwrite s kw kws)
     \<and> (\<forall>lkv b. api_linename ev (calls s) city (py_strip kw) = Inr (JObj lkv)
            \<and> field lkv (str_of ''status'') = JStr (str_of ''1'')
            \<and> pick_best_busline (field_or lkv (str_of ''buslines'') (JArr [])) = Inr (Some b)
            \<and> \<not> truthy b
            \<longrightarrow> skipped ev city overwrite s kw kws)
     \<and> (\<forall>lkv bkv dkv. api_linename ev (calls s) city (py_strip kw) = Inr (JObj lkv)
            \<and> field lkv (str_of ''status'') = JStr (str_of ''1'')
            \<and> pick_best_busline (field_or lkv (str_of ''buslines'') (JArr []))
                = Inr (Some (JObj bkv))
            \<and> bkv \<noteq> []
            \<and> api_lineid ev (calls s @ [Linename city (py_strip kw)]) city
                 (field bkv (str_of ''id'')) = Inr (JObj dkv)
            \<and> (field dkv (str_of ''status'') \<noteq> JStr (str_of ''1'')
                \<or> \<not> truthy (field dkv (str_of ''buslines'')))
            \<longrightarrow> skipped ev city overwrite s kw kws)"
proof (intro conjI allI impI)
  fix e t
  assume "keyword_step ev city overwrite s kw = Inl (e, t)"
  then show "run_keywords ev city overwrite s (kw # kws) = Inl (e, t)" by simp
next
  fix lkv
  assume a: "api_linename ev (calls s) city (py_strip kw) = Inr (JObj lkv)
            \<and> (field lkv (str_of ''status'') \<noteq> JStr (str_of ''1'')
                \<or> \<not> truthy (field_or lkv (str_of ''buslines'') (JArr [])))"
  then have r: "api_linename ev (calls s) city (py_strip kw) = Inr (JObj lkv)" by blast
  show "skipped ev city overwrite s kw kws"
  proof (cases "field lkv (str_of ''status'') \<noteq> JStr (str_of ''1'')")
    case True
    have st: "keyword_step ev city overwrite s kw =
                Inr (add_log (Linename_failed (field lkv (str_of ''info'')))
                       (add_call (Linename city (py_strip kw))
                          (add_log (Querying (py_strip kw)) s)))"
      using fetch_step[OF assms, of ev city] search_failed[OF r True] by simp
    show ?thesis
      by (rule skippedI[OF st, where ls = "[Querying (py_strip kw)]"
            and l = "Linename_failed (field lkv (str_of ''info''))"]) simp_all
  next
    case False
    with a have "fetch_keyword ev city (py_strip kw) (route_path (base_name (py_strip kw)))
             (stops_path (base_name (py_strip kw))) s
           = Inr (add_log No_candidate (add_call (Linename city (py_strip kw))
                    (add_log (Querying (py_strip kw)) s)))"
      by (intro no_candidates[OF r]) auto
    then have st: "keyword_step ev city overwrite s kw =
                Inr (add_log No_candidate (add_call (Linename city (py_strip kw))
                       (add_log (Querying (py_strip kw)) s)))"
      using fetch_step[OF assms, of ev city] by simp
    show ?thesis
      by (rule skippedI[OF st, where ls = "[Querying (py_strip kw)]" and l = No_candidate])
         simp_all
  qed
next
  fix lkv b
  assume a: "api_linename ev (calls s) city (py_strip kw) = Inr (JObj lkv)
            \<and> field lkv (str_of ''status'') = JStr (str_of ''1'')
            \<and> pick_best_busline (field_or lkv (str_of ''buslines'') (JArr [])) = Inr (Some b)
            \<and> \<not> truthy b"
  then have r: "api_linename ev (calls s) city (py_strip kw) = Inr (JObj lkv)" by blast
  from a have "fetch_keyword ev city (py_strip kw) (route_path (base_name (py_strip kw)))
             (stops_path (base_name (py_strip kw))) s
           = Inr (add_log No_candidate (add_call (Linename city (py_strip kw))
                    (add_log (Querying (py_strip kw)) s)))"
    by (intro no_candidates[OF r]) auto
  then have st: "keyword_step ev city overwrite s kw =
                Inr (add_log No_candidate (add_call (Linename city (py_strip kw))
                       (add_log (Querying (py_strip kw)) s)))"
    using fetch_step[OF assms, of ev city] by simp
  show "skipped ev city overwrite s kw kws"
    by (rule skippedI[OF st, where ls = "[Querying (py_strip kw)]" and l = No_candidate])
       simp_all
next
  fix lkv bkv dkv
  assume a: "api_linename ev (calls s) city (py_strip kw) = Inr (JObj lkv)
            \<and> field lkv (str_of ''status'') = JStr (str_of ''1'')
            \<and> pick_best_busline (field_or lkv (str_of ''buslines'') (JArr []))
                = Inr (Some (JObj bkv))
            \<and> bkv \<noteq> []
            \<and> api_lineid ev (calls s @ [Linename city (py_strip kw)]) city
                 (field bkv (str_of ''id'')) = Inr (JObj dkv)
            \<and> (field dkv (str_of ''status'') \<noteq> JStr (str_of ''1'')
                \<or> \<not> truthy (field dkv (str_of ''buslines'')))"
  then have "fetch_keyword ev city (py_strip kw) (route_path (base_name (py_strip kw)))
             (stops_path (base_name (py_strip kw))) s
           = Inr (add_log (Lineid_failed (field dkv (str_of ''info'')))
                  (add_call (Lineid city (field bkv (str_of ''id'')))
                     (add_log (Picked (field bkv (str_of ''id'')) (field bkv (str_of ''name''))
                                (field bkv (str_of ''company'')))
                        (add_call (Linename city (py_strip kw))
                           (add_log (Querying (py_strip kw)) s)))))"
    by (intro detail_failed) blast+
  then have st: "keyword_step ev city overwrite s kw
           = Inr (add_log (Lineid_failed (field dkv (str_of ''info'')))
                  (add_call (Lineid city (field bkv (str_of ''id'')))
                     (add_log (Picked (field bkv (str_of ''id'')) (field bkv (str_of ''name''))
                                (field bkv (str_of ''company'')))
                        (add_call (Linename city (py_strip kw))
                           (add_log (Querying (py_strip kw)) s)))))"
    using fetch_step[OF assms, of ev city] by simp
  show "skipped ev city overwrite s kw kws"
    by (rule skippedI[OF st, where ls = "[Querying (py_strip kw),
              Picked (field bkv (str_of ''id'')) (field bkv (str_of ''name''))
                (field bkv (str_of ''company''))]"
          and l = "Lineid_failed (field dkv (str_of ''info''))"]) simp_all
qed


lemma raisedD: "raised r = Some e \<Longrightarrow> \<exists>t. r = Inl (e, t)"
  by (cases r) (auto simp: raised_def)

lemma demo_distinct: "kw9 \<noteq> kw0" "kw5 \<noteq> kw0" "kw5 \<noteq> kw9" "kw7 \<noteq> kw0" "kw7 \<noteq> kw9" "kw7 \<noteq> kw5"
  by (simp_all add: demo_eval str_of_def)

lemma demo_kw7_raises:
  "raised (keyword_step demo_env demo_city False (init_state Map.empty) kw7) = Some ValueError"
  by (simp add: demo_eval run_eval string_eval)

theorem keyword_failure_policy_witness:
  "py_strip kw7 \<noteq> [] \<and> py_strip kw0 \<noteq> [] \<and> py_strip kw5 \<noteq> [] \<and> py_strip kw9 \<noteq> []
   \<and> files (init_state Map.empty) (route_path (base_name (py_strip kw7))) = None
   \<and> raised (keyword_step demo_env demo_city False (init_state Map.empty) kw7) = Some ValueError
   \<and> run_keywords demo_env demo_city False (init_state Map.empty) [kw7, kw24]
       = keyword_step demo_env demo_city False (init_state Map.empty) kw7
   \<and> api_linename demo_env (calls (init_state Map.empty)) demo_city (py_strip kw0)
       = Inr (JObj failed_fields)
   \<and> skipped demo_env demo_city False (init_state Map.empty) kw0 [kw24]
   \<and> api_linename demo_env (calls (init_state Map.empty)) demo_city (py_strip kw5)
       = Inr (JObj (ok_fields [JObj []]))
   \<and> pick_best_busline (field_or (ok_fields [JObj []]) (str_of ''buslines'') (JArr []))
       = Inr (Some (JObj []))
   \<and> skipped demo_env demo_city False (init_state Map.empty) kw5 [kw24]
   \<and> api_linename demo_env (calls (init_state Map.empty)) demo_city (py_strip kw9)
       = Inr (JObj (ok_fields [JObj [(str_of ''id'', JStr (str_of ''9''))]]))
   \<and> api_lineid demo_env (calls (init_state Map.empty) @ [Linename demo_city (py_strip kw9)])
         demo_city (field [(str_of ''id'', JStr (str_of ''9''))] (str_of ''id''))
       = Inr (JObj failed_fields)
   \<and> skipped demo_env demo_city False (init_state Map.empty) kw9 [kw24]"
proof -
  let ?s = "init_state Map.empty"
  have ne: "py_strip kw7 \<noteq> []" "py_strip kw0 \<noteq> []" "py_strip kw5 \<noteq> []" "py_strip kw9 \<noteq> []"
    by (simp_all add: demo_names) (simp_all add: kw7_def kw0_def kw5_def kw9_def)
  have nf: "False \<or> files ?s (route_path (base_name (py_strip kw))) = None
              \<or> files ?s (stops_path (base_name (py_strip kw))) = None" for kw
    by (simp add: init_state_def)
  have f7: "files ?s (route_path (base_name (py_strip kw7))) = None"
    by (simp add: init_state_def)
  have st: "field failed_fields (str_of ''status'') \<noteq> JStr (str_of ''1'')"
    "field (ok_fields bl) (str_of ''status'') = JStr (str_of ''1'')" for bl
    by (simp_all add: failed_fields_def ok_fields_def field_def field_or_def str_of_def)
  \<comment> \<open>the exception\<close>
  from raisedD[OF demo_kw7_raises] obtain t
    where t: "keyword_step demo_env demo_city False ?s kw7 = Inl (ValueError, t)" by blast
  from keyword_failure_policy [OF ne(1) nf, of demo_env demo_city "[kw24]"] t
  have r7: "run_keywords demo_env demo_city False ?s [kw7, kw24]
              = keyword_step demo_env demo_city False ?s kw7"
    by simp
  \<comment> \<open>the search that fails\<close>
  have l0: "api_linename demo_env (calls ?s) demo_city (py_strip kw0) = Inr (JObj failed_fields)"
    by (simp add: demo_names) (simp add: demo_env_def demo_linename_def failed_response_def)
  from keyword_failure_policy [OF ne(2) nf, of demo_env demo_city "[kw24]"] l0 st(1)
  have s0: "skipped demo_env demo_city False ?s kw0 [kw24]"
    by blast
  \<comment> \<open>the empty selection\<close>
  have l5: "api_linename demo_env (calls ?s) demo_city (py_strip kw5)
              = Inr (JObj (ok_fields [JObj []]))"
    by (simp add: demo_names)
       (simp add: demo_env_def demo_linename_def ok_response_def demo_distinct)
  have p5: "pick_best_busline (field_or (ok_fields [JObj []]) (str_of ''buslines'') (JArr []))
              = Inr (Some (JObj []))"
    by (simp add: ok_fields_def field_or_def str_of_def pick_best_busline_def py_min_key_def
        cand_key_def)
  have "\<not> truthy (JObj [])" by simp
  with keyword_failure_policy [OF ne(3) nf, of demo_env demo_city "[kw24]"] l5 st(2) p5
  have s5: "skipped demo_env demo_city False ?s kw5 [kw24]"
    by blast
  \<comment> \<open>the detail query that fails\<close>
  have l9: "api_linename demo_env (calls ?s) demo_city (py_strip kw9)
              = Inr (JObj (ok_fields [JObj [(str_of ''id'', JStr (str_of ''9''))]]))"
    by (simp add: demo_names)
       (simp add: demo_env_def demo_linename_def ok_response_def demo_distinct)
  have p9: "pick_best_busline
              (field_or (ok_fields [JObj [(str_of ''id'', JStr (str_of ''9''))]])
                 (str_of ''buslines'') (JArr []))
            = Inr (Some (JObj [(str_of ''id'', JStr (str_of ''9''))]))"
    by (simp add: ok_fields_def field_or_def str_of_def pick_best_busline_def py_min_key_def
        cand_key_def)
  have d9: "api_lineid demo_env (calls ?s @ [Linename demo_city (py_strip kw9)]) demo_city
              (field [(str_of ''id'', JStr (str_of ''9''))] (str_of ''id''))
            = Inr (JObj failed_fields)"
    by (simp add: demo_env_def demo_lineid_def failed_response_def field_def field_or_def)
  have n9: "[(str_of ''id'', JStr (str_of ''9''))] \<noteq> []" by simp
  from keyword_failure_policy [OF ne(4) nf, of demo_env demo_city "[kw24]"] l9 st p9 n9 d9
  have s9: "skipped demo_env demo_city False ?s kw9 [kw24]"
    by blast
  from ne f7 demo_kw7_raises r7 l0 s0 l5 p5 s5 l9 d9 s9 show ?thesis by blast
qed

text \<open>
  C1 as stated fails on the code: the polyline of the keyword "7" + U+8DEF has a segment
  of three numbers, \<open>parse_polyline\<close> raises \<open>ValueError\<close>, nothing is printed about
  it, and the keyword "24" + U+8DEF behind it, which alone gets its files, is never
  requested.
\<close>

theorem uncaught_error_ends_batch:
  "raised (run demo_env demo_city [kw7, kw24] Map.empty False) = Some ValueError
   \<and> calls (final_state (run demo_env demo_city [kw7, kw24] Map.empty False))
       = [Linename demo_city kw7, Lineid demo_city (JStr (str_of ''7''))]
   \<and> logs (final_state (run demo_env demo_city [kw7, kw24] Map.empty False))
       = [Querying kw7, Picked (JStr (str_of ''7'')) JNull JNull]
   \<and> files (final_state (run demo_env demo_city [kw7, kw24] Map.empty False))
        (route_path (str_of ''24'')) = None
   \<and> raised (run demo_env demo_city [kw24] Map.empty False) = None
   \<and> files (final_state (run demo_env demo_city [kw24] Map.empty False))
        (route_path (str_of ''24'')) \<noteq> None"
  by (simp add: demo_eval run_eval string_eval)

subsection \<open>Coordinates that are written\<close>

lemma gcj2wgs_wgs_of: "gcj2wgs lon lat = Inr (wgs_of (lon, lat))"
proof (cases "out_of_china lon lat")
  case True
  then show ?thesis by (simp add: gcj2wgs_def wgs_of_def)
next
  case False
  then have lat: "0.8293 \<le> lat" "lat \<le> 55.8271" by (auto simp: out_of_china_def)
  have c: "cos (lat / 180 * pi) \<noteq> 0" using cos_radlat_pos[OF lat] by simp
  have m: "0 < 1 - gcj_ee * sin (lat / 180 * pi) * sin (lat / 180 * pi)" by (rule magic_pos)
  have a: "gcj_a \<noteq> 0" "gcj_ee \<noteq> 1" by (simp_all add: gcj_a_def gcj_ee_def)
  from m have s: "sqrt (1 - gcj_ee * sin (lat / 180 * pi) * sin (lat / 180 * pi)) \<noteq> 0" by simp
  from m have m0: "1 - gcj_ee * sin (lat / 180 * pi) * sin (lat / 180 * pi) \<noteq> 0" by simp
  show ?thesis using False c m m0 s a
    by (simp add: gcj2wgs_def wgs_of_def wgs_inside_def Let_def bind_err_def py_sqrt_def
        py_div_def)
qed

lemma map_err_gcj2wgs:
  "map_err (\<lambda>q. gcj2wgs (fst q) (snd q)) gcj = Inr (map wgs_of gcj)"
  by (induction gcj) (simp_all add: gcj2wgs_wgs_of)

lemma geometry_coordinates_point:
  "geometry_coordinates (feature_point lon lat props) = coord_json (lon, lat)"
  by (simp add: geometry_coordinates_def feature_point_def field_def field_or_def str_of_def)

lemma stop_feature_coords:
  assumes "stop_feature lkv st = Inr f"
  shows "stop_coords st = Inr (geometry_coordinates f)"
    "stop_wgs st = Inr (geometry_coordinates f)"
proof -
  from assms obtain loc xy stop_name where
    l: "py_getitem st (str_of ''location'') = Inr loc"
    and x: "parse_location loc = Inr xy"
    and f: "f = feature_point (fst (wgs_of xy)) (snd (wgs_of xy))
                  (JObj [(str_of ''route_id'', field lkv (str_of ''id'')),
                         (str_of ''route_name'', field lkv (str_of ''name'')),
                         (str_of ''stop_name'', stop_name)])"
    by (auto simp: stop_feature_def bind_err_def gcj2wgs_wgs_of split: sum.splits)
  show "stop_coords st = Inr (geometry_coordinates f)"
    by (simp add: stop_coords_def l x f bind_err_def gcj2wgs_wgs_of geometry_coordinates_point)
  show "stop_wgs st = Inr (geometry_coordinates f)"
    by (simp add: stop_wgs_def l x f bind_err_def geometry_coordinates_point)
qed

lemma stop_loop_coords:
  "stop_loop lkv acc stops = Inr feats \<Longrightarrow>
   \<exists>new. feats = acc @ new
         \<and> list_all2 (\<lambda>st f. stop_coords st = Inr (geometry_coordinates f)
                           \<and> stop_wgs st = Inr (geometry_coordinates f)) stops new"
proof (induction stops arbitrary: acc)
  case Nil
  then show ?case by simp
next
  case (Cons st stops)
  from Cons.prems obtain f where f: "stop_feature lkv st = Inr f"
    and r: "stop_loop lkv (acc @ [f]) stops = Inr feats"
    by (auto split: sum.splits)
  from Cons.IH[OF r] obtain new where new: "feats = (acc @ [f]) @ new"
    "list_all2 (\<lambda>st f. stop_coords st = Inr (geometry_coordinates f)
                     \<and> stop_wgs st = Inr (geometry_coordinates f)) stops new" by blast
  with stop_feature_coords[OF f] show ?case
    by (intro exI[of _ "f # new"]) simp
qed

lemma build_features_coords:
  assumes "build_features (JObj lkv) = Inr (f, feats)"
  shows "route_coords lkv = Inr (geometry_coordinates f)"
    "route_wgs lkv = Inr (geometry_coordinates f)"
    "\<exists>stops. py_iter (field_or lkv (str_of ''busstops'') (JArr [])) = Inr stops
        \<and> list_all2 (\<lambda>st g. stop_coords st = Inr (geometry_coordinates g)
                           \<and> stop_wgs st = Inr (geometry_coordinates g)) stops feats"
proof -
  from assms obtain gcj stops where
    g: "parse_polyline (field_or lkv (str_of ''polyline'') (JStr [])) = Inr gcj"
    and i: "py_iter (field_or lkv (str_of ''busstops'') (JArr [])) = Inr stops"
    and l: "stop_loop lkv [] stops = Inr feats"
    and f: "f = feature_line (map wgs_of gcj) (route_props lkv)"
    by (auto simp: bind_err_def map_err_gcj2wgs split: sum.splits)
  show "route_coords lkv = Inr (geometry_coordinates f)"
    by (simp add: route_coords_def g f bind_err_def map_err_gcj2wgs geometry_coordinates_line)
  show "route_wgs lkv = Inr (geometry_coordinates f)"
    by (simp add: route_wgs_def g f bind_err_def geometry_coordinates_line comp_def)
  from stop_loop_coords[OF l] i
  show "\<exists>stops. py_iter (field_or lkv (str_of ''busstops'') (JArr [])) = Inr stops
        \<and> list_all2 (\<lambda>st g. stop_coords st = Inr (geometry_coordinates g)
                           \<and> stop_wgs st = Inr (geometry_coordinates g)) stops feats"
    by auto
qed

lemma build_features_obj: "build_features L = Inr r \<Longrightarrow> \<exists>lkv. L = JObj lkv"
  by (cases L) simp_all

lemma route_stops_distinct: "route_path b \<noteq> stops_path b'"
  by (simp add: route_path_def stops_path_def str_of_def)

lemma write_text_files:
  "files (final_state (write_text path doc s)) =
     (case write_text path doc s of
        Inr t \<Rightarrow> (files s)(path \<mapsto> Json_file doc)
      | Inl et \<Rightarrow> files (snd et))"
  "write_text path doc s = Inl (e, t) \<Longrightarrow>
     files t = files s \<or> files t = (files s)(path \<mapsto> Other_file)"
  by (auto simp: write_text_def final_state_def split: if_splits)

lemma write_outputs_files:
  assumes "files (final_state (write_outputs rp sp f feats s)) p \<noteq> files s p" "rp \<noteq> sp"
  shows "p = rp \<and> (files (final_state (write_outputs rp sp f feats s)) p
                      = Some (Json_file (to_fc [f]))
                    \<or> files (final_state (write_outputs rp sp f feats s)) p = Some Other_file)
       \<or> p = sp \<and> (files (final_state (write_outputs rp sp f feats s)) p
                        = Some (Json_file (to_fc feats))
                      \<or> files (final_state (write_outputs rp sp f feats s)) p = Some Other_file)"
  using assms
  by (auto simp: write_outputs_def write_text_def final_state_def add_log_def
      split: if_splits)

lemma fetch_detail_files:
  assumes "files (final_state (fetch_detail ev city rp sp bkv s)) p \<noteq> files s p" "rp \<noteq> sp"
  shows "\<exists>dkv lkv f feats.
           api_lineid ev (calls s) city (field bkv (str_of ''id'')) = Inr (JObj dkv)
           \<and> field dkv (str_of ''status'') = JStr (str_of ''1'')
           \<and> first_item (field dkv (str_of ''buslines'')) = Inr (JObj lkv)
           \<and> build_features (JObj lkv) = Inr (f, feats)
           \<and> (p = rp \<and> (files (final_state (fetch_detail ev city rp sp bkv s)) p
                            = Some (Json_file (to_fc [f]))
                          \<or> files (final_state (fetch_detail ev city rp sp bkv s)) p
                            = Some Other_file)
              \<or> p = sp \<and> (files (final_state (fetch_detail ev city rp sp bkv s)) p
                              = Some (Json_file (to_fc feats))
                            \<or> files (final_state (fetch_detail ev city rp sp bkv s)) p
                              = Some Other_file))"
proof -
  let ?id = "field bkv (str_of ''id'')"
  let ?s1 = "add_log (Picked ?id (field bkv (str_of ''name'')) (field bkv (str_of ''company''))) s"
  let ?s2 = "add_call (Lineid city ?id) ?s1"
  show ?thesis
  proof (cases "api_lineid ev (calls s) city ?id")
    case (Inl e)
    with assms show ?thesis by (simp add: fetch_detail_def Let_def final_state_def)
  next
    case (Inr detail)
    show ?thesis
    proof (cases detail)
      case (JObj dkv)
      show ?thesis
      proof (cases "field dkv (str_of ''status'') \<noteq> JStr (str_of ''1'')
                     \<or> \<not> truthy (field dkv (str_of ''buslines''))")
        case True
        with assms Inr JObj show ?thesis
          by (simp add: fetch_detail_def Let_def final_state_def)
      next
        case False
        show ?thesis
        proof (cases "bind_err (first_item (field dkv (str_of ''buslines''))) build_features")
          case (Inl e)
          with assms Inr JObj False show ?thesis
            by (simp add: fetch_detail_def Let_def final_state_def)
        next
          case fs: (Inr r)
          obtain f feats where r: "r = (f, feats)" by (cases r)
          from fs obtain L where L: "first_item (field dkv (str_of ''buslines'')) = Inr L"
            "build_features L = Inr (f, feats)"
            by (auto simp: bind_err_def r split: sum.splits)
          from build_features_obj[OF L(2)] obtain lkv where lkv: "L = JObj lkv" by blast
          have eq: "fetch_detail ev city rp sp bkv s = write_outputs rp sp f feats ?s2"
            using Inr JObj False fs r by (simp add: fetch_detail_def Let_def)
          from assms(1) have "files (final_state (write_outputs rp sp f feats ?s2)) p
                                \<noteq> files ?s2 p"
            by (simp add: eq)
          from write_outputs_files[OF this assms(2)] Inr JObj L lkv False
          show ?thesis unfolding eq by blast
        qed
      qed
    qed (use assms Inr in \<open>simp_all add: fetch_detail_def Let_def final_state_def\<close>)
  qed
qed

lemma fetch_keyword_files:
  assumes "files (final_state (fetch_keyword ev city kw rp sp s)) p \<noteq> files s p"
  shows "\<exists>skv bkv.
           api_linename ev (calls s) city kw = Inr (JObj skv)
           \<and> field skv (str_of ''status'') = JStr (str_of ''1'')
           \<and> pick_best_busline (field_or skv (str_of ''buslines'') (JArr []))
               = Inr (Some (JObj bkv))
           \<and> fetch_keyword ev city kw rp sp s
               = fetch_detail ev city rp sp bkv
                   (add_call (Linename city kw) (add_log (Querying kw) s))"
proof (rule ccontr)
  assume n: "\<not> ?thesis"
  then have "files (final_state (fetch_keyword ev city kw rp sp s)) p = files s p"
    by (auto simp: fetch_keyword_def Let_def final_state_def
        split: sum.splits json.splits option.splits if_splits)
  with assms show False by simp
qed

lemma keyword_step_files:
  assumes "files (final_state (keyword_step ev city overwrite s kw)) p \<noteq> files s p"
  shows "(\<exists>skv bkv dkv lkv.
        api_linename ev (calls s) city (py_strip kw) = Inr (JObj skv)
        \<and> field skv (str_of ''status'') = JStr (str_of ''1'')
        \<and> pick_best_busline (field_or skv (str_of ''buslines'') (JArr [])) = Inr (Some (JObj bkv))
        \<and> api_lineid ev (calls s @ [Linename city (py_strip kw)]) city
             (field bkv (str_of ''id'')) = Inr (JObj dkv)
        \<and> field dkv (str_of ''status'') = JStr (str_of ''1'')
        \<and> first_item (field dkv (str_of ''buslines'')) = Inr (JObj lkv)
        \<and> (p = route_path (base_name (py_strip kw)) \<or> p = stops_path (base_name (py_strip kw)))
        \<and> (files (final_state (keyword_step ev city overwrite s kw)) p = Some Other_file
           \<or> (\<exists>fs. files (final_state (keyword_step ev city overwrite s kw)) p = Some (Json_file (to_fc fs))
                 \<and> (p = route_path (base_name (py_strip kw))
                      \<and> (\<exists>f. fs = [f]
                            \<and> route_coords lkv = Inr (geometry_coordinates f)
                            \<and> route_wgs lkv = Inr (geometry_coordinates f))
                    \<or> p = stops_path (base_name (py_strip kw))
                      \<and> (\<exists>stops.
                            py_iter (field_or lkv (str_of ''busstops'') (JArr [])) = Inr stops
                            \<and> list_all2
                                 (\<lambda>st f. stop_coords st = Inr (geometry_coordinates f)
                                        \<and> stop_wgs st = Inr (geometry_coordinates f))
                                 stops fs)))))"
proof -
  let ?rp = "route_path (base_name (py_strip kw))"
  let ?sp = "stops_path (base_name (py_strip kw))"
  let ?s2 = "add_call (Linename city (py_strip kw)) (add_log (Querying (py_strip kw)) s)"
  have e: "keyword_step ev city overwrite s kw = fetch_keyword ev city (py_strip kw) ?rp ?sp s"
  proof (rule ccontr)
    assume "\<not> ?thesis"
    then have "files (final_state (keyword_step ev city overwrite s kw)) p = files s p"
      by (auto simp: keyword_step_def Let_def final_state_def load_existing_frame
          split: if_splits)
    with assms show False by simp
  qed
  with assms have c: "files (final_state (fetch_keyword ev city (py_strip kw) ?rp ?sp s)) p
                     \<noteq> files s p"
    by simp
  from fetch_keyword_files[OF c] obtain skv bkv where k:
    "api_linename ev (calls s) city (py_strip kw) = Inr (JObj skv)"
    "field skv (str_of ''status'') = JStr (str_of ''1'')"
    "pick_best_busline (field_or skv (str_of ''buslines'') (JArr [])) = Inr (Some (JObj bkv))"
    "fetch_keyword ev city (py_strip kw) ?rp ?sp s = fetch_detail ev city ?rp ?sp bkv ?s2"
    by blast
  have e2: "keyword_step ev city overwrite s kw = fetch_detail ev city ?rp ?sp bkv ?s2"
    by (simp add: e k(4))
  from assms have "files (final_state (fetch_detail ev city ?rp ?sp bkv ?s2)) p \<noteq> files ?s2 p"
    by (simp add: e2)
  from fetch_detail_files[OF this route_stops_distinct]
  obtain dkv lkv f feats where x:
    "api_lineid ev (calls ?s2) city (field bkv (str_of ''id'')) = Inr (JObj dkv)"
    "field dkv (str_of ''status'') = JStr (str_of ''1'')"
    "first_item (field dkv (str_of ''buslines'')) = Inr (JObj lkv)"
    "build_features (JObj lkv) = Inr (f, feats)"
    "p = ?rp \<and> (files (final_state (fetch_detail ev city ?rp ?sp bkv ?s2)) p
                   = Some (Json_file (to_fc [f]))
                 \<or> files (final_state (fetch_detail ev city ?rp ?sp bkv ?s2)) p = Some Other_file)
     \<or> p = ?sp \<and> (files (final_state (fetch_detail ev city ?rp ?sp bkv ?s2)) p
                     = Some (Json_file (to_fc feats))
                   \<or> files (final_state (fetch_detail ev city ?rp ?sp bkv ?s2)) p
                     = Some Other_file)"
    by blast
  from x(1) have x1: "api_lineid ev (calls s @ [Linename city (py_strip kw)]) city
                        (field bkv (str_of ''id'')) = Inr (JObj dkv)"
    by simp
  note b = build_features_coords[OF x(4)]
  from x(5) k(1,2,3) x1 x(2,3) b show ?thesis
    unfolding e2 by blast
qed


lemma run_keywords_files:
  "files (final_state (run_keywords ev city overwrite s kws)) p \<noteq> files s p \<Longrightarrow>
   (\<exists>pre kw post s0 skv bkv dkv lkv.
        kws = pre @ kw # post
        \<and> run_keywords ev city overwrite s pre = Inr s0
        \<and> api_linename ev (calls s0) city (py_strip kw) = Inr (JObj skv)
        \<and> field skv (str_of ''status'') = JStr (str_of ''1'')
        \<and> pick_best_busline (field_or skv (str_of ''buslines'') (JArr [])) = Inr (Some (JObj bkv))
        \<and> api_lineid ev (calls s0 @ [Linename city (py_strip kw)]) city
             (field bkv (str_of ''id'')) = Inr (JObj dkv)
        \<and> field dkv (str_of ''status'') = JStr (str_of ''1'')
        \<and> first_item (field dkv (str_of ''buslines'')) = Inr (JObj lkv)
        \<and> (p = route_path (base_name (py_strip kw)) \<or> p = stops_path (base_name (py_strip kw)))
        \<and> (files (final_state (run_keywords ev city overwrite s kws)) p = Some Other_file
           \<or> (\<exists>fs. files (final_state (run_keywords ev city overwrite s kws)) p = Some (Json_file (to_fc fs))
                 \<and> (p = route_path (base_name (py_strip kw))
                      \<and> (\<exists>f. fs = [f]
                            \<and> route_coords lkv = Inr (geometry_coordinates f)
                            \<and> route_wgs lkv = Inr (geometry_coordinates f))
                    \<or> p = stops_path (base_name (py_strip kw))
                      \<and> (\<exists>stops.
                            py_iter (field_or lkv (str_of ''busstops'') (JArr [])) = Inr stops
                            \<and> list_all2
                                 (\<lambda>st f. stop_coords st = Inr (geometry_coordinates f)
                                        \<and> stop_wgs st = Inr (geometry_coordinates f))
                                 stops fs)))))"
proof (induction kws arbitrary: s)
  case Nil
  then show ?case by (simp add: final_state_def)
next
  case (Cons k kws)
  show ?case
  proof (cases "keyword_step ev city overwrite s k")
    case (Inl es)
    then have en: "files (final_state (run_keywords ev city overwrite s (k # kws))) p
                   = files (final_state (keyword_step ev city overwrite s k)) p"
      by simp
    with Cons.prems have "files (final_state (keyword_step ev city overwrite s k)) p \<noteq> files s p"
      by simp
    from keyword_step_files[OF this] obtain skv bkv dkv lkv where c:
      "api_linename ev (calls s) city (py_strip k) = Inr (JObj skv)
        \<and> field skv (str_of ''status'') = JStr (str_of ''1'')
        \<and> pick_best_busline (field_or skv (str_of ''buslines'') (JArr [])) = Inr (Some (JObj bkv))
        \<and> api_lineid ev (calls s @ [Linename city (py_strip k)]) city
             (field bkv (str_of ''id'')) = Inr (JObj dkv)
        \<and> field dkv (str_of ''status'') = JStr (str_of ''1'')
        \<and> first_item (field dkv (str_of ''buslines'')) = Inr (JObj lkv)
        \<and> (p = route_path (base_name (py_strip k)) \<or> p = stops_path (base_name (py_strip k)))
        \<and> (files (final_state (keyword_step ev city overwrite s k)) p = Some Other_file
           \<or> (\<exists>fs. files (final_state (keyword_step ev city overwrite s k)) p = Some (Json_file (to_fc fs))
                 \<and> (p = route_path (base_name (py_strip k))
                      \<and> (\<exists>f. fs = [f]
                            \<and> route_coords lkv = Inr (geometry_coordinates f)
                            \<and> route_wgs lkv = Inr (geometry_coordinates f))
                    \<or> p = stops_path (base_name (py_strip k))
                      \<and> (\<exists>stops.
                            py_iter (field_or lkv (str_of ''busstops'') (JArr [])) = Inr stops
                            \<and> list_all2
                                 (\<lambda>st f. stop_coords st = Inr (geometry_coordinates f)
                                        \<and> stop_wgs st = Inr (geometry_coordinates f))
                                 stops fs))))"
      by blast
    show ?thesis
      unfolding en
      by (rule exI[of _ "[]"], rule exI[of _ k], rule exI[of _ kws], rule exI[of _ s],
          rule exI[of _ skv], rule exI[of _ bkv], rule exI[of _ dkv], rule exI[of _ lkv])
         (use c in simp)
  next
    case (Inr s1)
    then have e: "run_keywords ev city overwrite s (k # kws) = run_keywords ev city overwrite s1 kws"
      by simp
    show ?thesis
    proof (cases "files (final_state (run_keywords ev city overwrite s1 kws)) p = files s1 p")
      case False
      from Cons.IH[OF False] obtain pre kw post s0 skv bkv dkv lkv where
        k: "kws = pre @ kw # post" and r: "run_keywords ev city overwrite s1 pre = Inr s0"
        and c: "api_linename ev (calls s0) city (py_strip kw) = Inr (JObj skv)
        \<and> field skv (str_of ''status'') = JStr (str_of ''1'')
        \<and> pick_best_busline (field_or skv (str_of ''buslines'') (JArr [])) = Inr (Some (JObj bkv))
        \<and> api_lineid ev (calls s0 @ [Linename city (py_strip kw)]) city
             (field bkv (str_of ''id'')) = Inr (JObj dkv)
        \<and> field dkv (str_of ''status'') = JStr (str_of ''1'')
        \<and> first_item (field dkv (str_of ''buslines'')) = Inr (JObj lkv)
        \<and> (p = route_path (base_name (py_strip kw)) \<or> p = stops_path (base_name (py_strip kw)))
        \<and> (files (final_state (run_keywords ev city overwrite s1 kws)) p = Some Other_file
           \<or> (\<exists>fs. files (final_state (run_keywords ev city overwrite s1 kws)) p = Some (Json_file (to_fc fs))
                 \<and> (p = route_path (base_name (py_strip kw))
                      \<and> (\<exists>f. fs = [f]
                            \<and> route_coords lkv = Inr (geometry_coordinates f)
                            \<and> route_wgs lkv = Inr (geometry_coordinates f))
                    \<or> p = stops_path (base_name (py_strip kw))
                      \<and> (\<exists>stops.
                            py_iter (field_or lkv (str_of ''busstops'') (JArr [])) = Inr stops
                            \<and> list_all2
                                 (\<lambda>st f. stop_coords st = Inr (geometry_coordinates f)
                                        \<and> stop_wgs st = Inr (geometry_coordinates f))
                                 stops fs))))"
        by blast
      from r Inr have r': "run_keywords ev city overwrite s (k # pre) = Inr s0"
        by simp
      from k have k': "k # kws = (k # pre) @ kw # post"
        by simp
      show ?thesis
        unfolding e
        by (rule exI[of _ "k # pre"], rule exI[of _ kw], rule exI[of _ post], rule exI[of _ s0],
            rule exI[of _ skv], rule exI[of _ bkv], rule exI[of _ dkv], rule exI[of _ lkv])
           (use k' r' c in blast)
    next
      case True
      have s1: "final_state (keyword_step ev city overwrite s k) = s1"
        using Inr by (simp add: final_state_def)
      have en: "files (final_state (run_keywords ev city overwrite s (k # kws))) p
                   = files (final_state (keyword_step ev city overwrite s k)) p"
        by (simp only: e True s1)
      with Cons.prems have "files (final_state (keyword_step ev city overwrite s k)) p
                              \<noteq> files s p"
        by simp
      from keyword_step_files[OF this] obtain skv bkv dkv lkv where c:
        "api_linename ev (calls s) city (py_strip k) = Inr (JObj skv)
        \<and> field skv (str_of ''status'') = JStr (str_of ''1'')
        \<and> pick_best_busline (field_or skv (str_of ''buslines'') (JArr [])) = Inr (Some (JObj bkv))
        \<and> api_lineid ev (calls s @ [Linename city (py_strip k)]) city
             (field bkv (str_of ''id'')) = Inr (JObj dkv)
        \<and> field dkv (str_of ''status'') = JStr (str_of ''1'')
        \<and> first_item (field dkv (str_of ''buslines'')) = Inr (JObj lkv)
        \<and> (p = route_path (base_name (py_strip k)) \<or> p = stops_path (base_name (py_strip k)))
        \<and> (files (final_state (keyword_step ev city overwrite s k)) p = Some Other_file
           \<or> (\<exists>fs. files (final_state (keyword_step ev city overwrite s k)) p = Some (Json_file (to_fc fs))
                 \<and> (p = route_path (base_name (py_strip k))
                      \<and> (\<exists>f. fs = [f]
                            \<and> route_coords lkv = Inr (geometry_coordinates f)
                            \<and> route_wgs lkv = Inr (geometry_coordinates f))
                    \<or> p = stops_path (base_name (py_strip k))
                      \<and> (\<exists>stops.
                            py_iter (field_or lkv (str_of ''busstops'') (JArr [])) = Inr stops
                            \<and> list_all2
                                 (\<lambda>st f. stop_coords st = Inr (geometry_coordinates f)
                                        \<and> stop_wgs st = Inr (geometry_coordinates f))
                                 stops fs))))"
        by blast
      show ?thesis
        unfolding en
        by (rule exI[of _ "[]"], rule exI[of _ k], rule exI[of _ kws], rule exI[of _ s],
            rule exI[of _ skv], rule exI[of _ bkv], rule exI[of _ dkv], rule exI[of _ lkv])
           (use c in simp)
    qed
  qed
qed

text \<open>
  C4. Every file that the loop has changed is the route file or the stop file of one of
  the keywords, written from the first bus line of the detail response to the request for
  the candidate picked from that keyword's search response. It is either empty (the write
  failed after the file was opened, so it holds no coordinate) or a feature collection: the
  coordinate list of the route feature is the transformer applied to each point parsed
  from the polyline, and the coordinates of each stop feature are the transformer applied
  to the point parsed from the location of the stop. The value of the transformer is
  written out: the point itself outside the envelope, the corrected point inside. So no
  coordinate of the provider's frame is written.
\<close>

theorem written_coordinates_are_transformed:
  assumes "files (final_state (run_keywords ev city overwrite s kws)) p \<noteq> files s p"
  shows "(\<exists>pre kw post s0 skv bkv dkv lkv.
        kws = pre @ kw # post
        \<and> run_keywords ev city overwrite s pre = Inr s0
        \<and> api_linename ev (calls s0) city (py_strip kw) = Inr (JObj skv)
        \<and> field skv (str_of ''status'') = JStr (str_of ''1'')
        \<and> pick_best_busline (field_or skv (str_of ''buslines'') (JArr [])) = Inr (Some (JObj bkv))
        \<and> api_lineid ev (calls s0 @ [Linename city (py_strip kw)]) city
             (field bkv (str_of ''id'')) = Inr (JObj dkv)
        \<and> field dkv (str_of ''status'') = JStr (str_of ''1'')
        \<and> first_item (field dkv (str_of ''buslines'')) = Inr (JObj lkv)
        \<and> (p = route_path (base_name (py_strip kw)) \<or> p = stops_path (base_name (py_strip kw)))
        \<and> (files (final_state (run_keywords ev city overwrite s kws)) p = Some Other_file
           \<or> (\<exists>fs. files (final_state (run_keywords ev city overwrite s kws)) p = Some (Json_file (to_fc fs))
                 \<and> (p = route_path (base_name (py_strip kw))
                      \<and> (\<exists>f. fs = [f]
                            \<and> route_coords lkv = Inr (geometry_coordinates f)
                            \<and> route_wgs lkv = Inr (geometry_coordinates f))
                    \<or> p = stops_path (base_name (py_strip kw))
                      \<and> (\<exists>stops.
                            py_iter (field_or lkv (str_of ''busstops'') (JArr [])) = Inr stops
                            \<and> list_all2
                                 (\<lambda>st f. stop_coords st = Inr (geometry_coordinates f)
                                        \<and> stop_wgs st = Inr (geometry_coordinates f))
                                 stops fs)))))"
  using assms by (rule run_keywords_files)


lemma demo_run_B1:
  "files (final_state (run_keywords demo_env demo_city False (init_state Map.empty) [kwB1])) (route_path (str_of ''B1''))
   = Some (Json_file (to_fc [feature_line [wgs_inside 105 35, (1.5, 2)]
                               (route_props inside_line)]))"
  "files (final_state (run_keywords demo_env demo_city False (init_state Map.empty) [kwB1])) (stops_path (str_of ''B1''))
   = Some (Json_file (to_fc [feature_point (fst (wgs_inside 105 35)) (snd (wgs_inside 105 35))
        (JObj [(str_of ''route_id'', JStr (str_of ''31'')),
               (str_of ''route_name'', JStr (str_of ''B1'')),
               (str_of ''stop_name'', JStr (str_of ''C''))])]))"
  by (simp_all add: demo_eval step_eval string_eval gcj2wgs_wgs_of wgs_of_def out_of_china_def)

lemma wgs_inside_shift:
  assumes "0.8293 \<le> lat" "lat \<le> 55.8271"
  shows "0 < tlon (lon - 105.0) (lat - 35.0) \<Longrightarrow> fst (wgs_inside lon lat) < lon"
    "tlat (lon - 105.0) (lat - 35.0) < 0 \<Longrightarrow> lat < snd (wgs_inside lon lat)"
proof -
  define m where "m = 1 - gcj_ee * sin (lat / 180.0 * pi) * sin (lat / 180.0 * pi)"
  define D1 where "D1 = gcj_a / cos (lat / 180.0 * pi) * sqrt m * pi"
  define D2 where "D2 = (gcj_a * (1 - gcj_ee)) / (m * sqrt m) * pi"
  have f: "fst (wgs_inside lon lat) = lon - (tlon (lon - 105.0) (lat - 35.0) * 180.0) / D1"
    and s: "snd (wgs_inside lon lat) = lat - (tlat (lon - 105.0) (lat - 35.0) * 180.0) / D2"
    by (simp_all add: wgs_inside_def Let_def D1_def D2_def m_def)
  have c: "0 < cos (lat / 180.0 * pi)" using cos_radlat_pos[OF assms] by simp
  have m: "0 < m" unfolding m_def by (rule magic_pos)
  have a: "0 < gcj_a" "0 < 1 - gcj_ee" by (simp_all add: gcj_a_def gcj_ee_def)
  have d1: "0 < D1" unfolding D1_def using c m a(1) by (intro mult_pos_pos divide_pos_pos) simp_all
  have d2: "0 < D2" unfolding D2_def using m a by (intro mult_pos_pos divide_pos_pos) simp_all
  {
    assume "0 < tlon (lon - 105.0) (lat - 35.0)"
    then have "0 < (tlon (lon - 105.0) (lat - 35.0) * 180.0) / D1"
      using d1 by (intro divide_pos_pos mult_pos_pos) simp_all
    then show "fst (wgs_inside lon lat) < lon" unfolding f by linarith
  }
  {
    assume "tlat (lon - 105.0) (lat - 35.0) < 0"
    then have "tlat (lon - 105.0) (lat - 35.0) * 180.0 < 0"
      by (simp add: mult_neg_pos)
    then have "(tlat (lon - 105.0) (lat - 35.0) * 180.0) / D2 < 0"
      using d2 by (rule divide_neg_pos)
    then show "lat < snd (wgs_inside lon lat)" unfolding s by linarith
  }
qed

lemma wgs_inside_origin:
  "fst (wgs_inside 105 35) < 105" "35 < snd (wgs_inside 105 35)"
proof -
  have tl: "tlon (105 - 105.0) (35 - 35.0) = 300" "tlat (105 - 105.0) (35 - 35.0) = - 100"
    by (simp_all add: tlon_def tlat_def)
  have b: "(0.8293 :: real) \<le> 35" "(35 :: real) \<le> 55.8271" by simp_all
  show "fst (wgs_inside 105 35) < 105"
    using wgs_inside_shift(1)[OF b, of 105] tl by simp
  show "35 < snd (wgs_inside 105 35)"
    using wgs_inside_shift(2)[OF b, of 105] tl by simp
qed

theorem written_coordinates_are_transformed_witness:
  "files (final_state (run_keywords demo_env demo_city False (init_state Map.empty) [kwB1])) (route_path (str_of ''B1''))
   \<noteq> files (init_state Map.empty) (route_path (str_of ''B1''))
   \<and> (\<exists>pre kw post s0 skv bkv dkv lkv.
        [kwB1] = pre @ kw # post
        \<and> run_keywords demo_env demo_city False (init_state Map.empty) pre = Inr s0
        \<and> api_linename demo_env (calls s0) demo_city (py_strip kw) = Inr (JObj skv)
        \<and> field skv (str_of ''status'') = JStr (str_of ''1'')
        \<and> pick_best_busline (field_or skv (str_of ''buslines'') (JArr [])) = Inr (Some (JObj bkv))
        \<and> api_lineid demo_env (calls s0 @ [Linename demo_city (py_strip kw)]) demo_city
             (field bkv (str_of ''id'')) = Inr (JObj dkv)
        \<and> field dkv (str_of ''status'') = JStr (str_of ''1'')
        \<and> first_item (field dkv (str_of ''buslines'')) = Inr (JObj lkv)
        \<and> ((route_path (str_of ''B1'')) = route_path (base_name (py_strip kw)) \<or> (route_path (str_of ''B1'')) = stops_path (base_name (py_strip kw)))
        \<and> (files (final_state (run_keywords demo_env demo_city False (init_state Map.empty) [kwB1])) (route_path (str_of ''B1'')) = Some Other_file
           \<or> (\<exists>fs. files (final_state (run_keywords demo_env demo_city False (init_state Map.empty) [kwB1])) (route_path (str_of ''B1'')) = Some (Json_file (to_fc fs))
                 \<and> ((route_path (str_of ''B1'')) = route_path (base_name (py_strip kw))
                      \<and> (\<exists>f. fs = [f]
                            \<and> route_coords lkv = Inr (geometry_coordinates f)
                            \<and> route_wgs lkv = Inr (geometry_coordinates f))
                    \<or> (route_path (str_of ''B1'')) = stops_path (base_name (py_strip kw))
                      \<and> (\<exists>stops.
                            py_iter (field_or lkv (str_of ''busstops'') (JArr [])) = Inr stops
                            \<and> list_all2
                                 (\<lambda>st f. stop_coords st = Inr (geometry_coordinates f)
                                        \<and> stop_wgs st = Inr (geometry_coordinates f))
                                 stops fs)))))
   \<and> files (final_state (run_keywords demo_env demo_city False (init_state Map.empty) [kwB1])) (route_path (str_of ''B1''))
      = Some (Json_file (to_fc [feature_line [wgs_inside 105 35, (1.5, 2)]
                                  (route_props inside_line)]))
   \<and> route_wgs inside_line = Inr (JArr [coord_json (wgs_inside 105 35), coord_json (1.5, 2)])
   \<and> fst (wgs_inside 105 35) < 105
   \<and> 35 < snd (wgs_inside 105 35)"
proof -
  have h: "files (final_state (run_keywords demo_env demo_city False (init_state Map.empty) [kwB1])) (route_path (str_of ''B1''))
           \<noteq> files (init_state Map.empty) (route_path (str_of ''B1''))"
    unfolding demo_run_B1(1) by (simp add: init_state_def)
  have c: "route_wgs inside_line = Inr (JArr [coord_json (wgs_inside 105 35), coord_json (1.5, 2)])"
    by (simp add: route_wgs_def inside_line_def field_or_def bind_err_def parse_pair_def
        wgs_of_def out_of_china_def string_eval)
  from written_coordinates_are_transformed [OF h] h c demo_run_B1(1) wgs_inside_origin
  show ?thesis by blast
qed


lemma write_failures:
  "raised (run demo_env demo_city [kw_slash] Map.empty False) = Some OSError"
  "files (final_state (run demo_env demo_city [kw_slash] Map.empty False))
     (route_path (str_of ''a/b'')) = None"
  "raised (run demo_env demo_city [kwS] Map.empty False) = Some ValueError"
  "files (final_state (run demo_env demo_city [kwS] Map.empty False))
     (route_path (str_of ''S'')) = Some Other_file"
  "files (final_state (run demo_env demo_city [kwS] Map.empty False))
     (stops_path (str_of ''S'')) = None"
  by (simp_all add: demo_eval run_eval string_eval)

end
